theory Spec2Isabelle
  imports Complex_Main "HOL-Library.Word"
begin

unbundle bit_operations_syntax

section \<open>Machine types\<close>

type_synonym uint8_t = "8 word"
type_synonym uint16_t = "16 word"
type_synonym int16_t = "16 word"
type_synonym uint64_t = "64 word"

text \<open>
  An \<open>int16_t\<close> is a 16-bit word read with \<open>sint\<close>; an \<open>uint16_t\<close> is one read with
  \<open>uint\<close>. The C comparisons between the two promote both operands to \<open>int\<close>, so they
  are comparisons of \<open>sint\<close> against \<open>uint\<close>.
\<close>

section \<open>mcp320x.c: the analog-to-digital converter\<close>

text \<open>
  The enumerators named by the \<open>switch\<close> of \<open>get_sample_singleended\<close>. A C enum
  parameter can carry any other integer as well; \<open>CH_other\<close> stands for all of them
  (the \<open>default\<close> label).
\<close>

datatype channel_singleended =
  CH0 | CH1 | CH2 | CH3 | CH4 | CH5 | CH6 | CH7 | CH_other

definition startbit :: uint8_t where
  "startbit = 0x80"

definition sebit :: uint8_t where
  "sebit = 0x40"

text \<open>
  \<open>bcm2835_spi_transfern\<close> sends the three bytes of \<open>data\<close> and overwrites them with the
  three bytes received. Only \<open>data[0]\<close> is initialised by \<open>sample\<close>, so the bus is a
  function from the configuration byte to the three reply bytes.
\<close>

type_synonym spi_bus = "uint8_t \<Rightarrow> uint8_t \<times> uint8_t \<times> uint8_t"

definition sample :: "spi_bus \<Rightarrow> uint8_t \<Rightarrow> int16_t" where
  "sample spi channel_config =
     (let config = startbit OR sebit OR push_bit 3 channel_config;
          (data0, data1, data2) = spi config;
          s = push_bit 11 (ucast (data0 AND 0x01) :: uint16_t);
          s = s OR push_bit 3 (ucast data1 :: uint16_t);
          s = s OR (ucast (drop_bit 5 (data2 AND 0xe0)) :: uint16_t)
      in s)"

definition get_sample_singleended :: "spi_bus \<Rightarrow> channel_singleended \<Rightarrow> int16_t" where
  "get_sample_singleended spi adc_ch =
     (case adc_ch of
        CH0 \<Rightarrow> sample spi 0
      | CH1 \<Rightarrow> sample spi 1
      | CH2 \<Rightarrow> sample spi 2
      | CH3 \<Rightarrow> sample spi 3
      | CH4 \<Rightarrow> sample spi 4
      | CH5 \<Rightarrow> sample spi 5
      | CH6 \<Rightarrow> sample spi 6
      | CH7 \<Rightarrow> sample spi 7
      | CH_other \<Rightarrow> - 1)"


section \<open>low-energy-meter.c: data\<close>

text \<open>
  \<open>struct timespec\<close>. The widths of \<open>time_t\<close> and \<open>long\<close> depend on the platform, and
  no statement below depends on their overflow, so both fields are integers.
\<close>

record timespec =
  tv_sec :: int
  tv_nsec :: int

datatype RPiGPIOPin = RPI_GPIO_P1_18 | RPI_GPIO_P1_16

definition charge_pin :: RPiGPIOPin where
  "charge_pin = RPI_GPIO_P1_18"

definition discharge_pin :: RPiGPIOPin where
  "discharge_pin = RPI_GPIO_P1_16"

definition adc_channel :: channel_singleended where
  "adc_channel = CH0"

text \<open>
  \<open>struct ring_entry\<close> is declared in ring.h; its three fields \<open>timestamp\<close>, \<open>value\<close>
  and \<open>epoch\<close> have the types of what the sampling loop stores in them and of the
  parameters of \<open>log_sample\<close> that receive them.
\<close>

record ring_entry =
  entry_timestamp :: uint64_t
  entry_value :: int16_t
  entry_epoch :: uint64_t

datatype State = charging | discharging

text \<open>The globals read by the sampling thread, fixed once \<open>main\<close> has parsed its arguments.\<close>

record config =
  task_priority :: int
  sampling_interval :: timespec
  threshold_upper :: uint16_t
  threshold_lower :: uint16_t

text \<open>The local variables of \<open>sampling_thread_loop\<close> that live across iterations.\<close>

record sampling_locals =
  state :: State
  epoch :: uint64_t
  tsample :: timespec

text \<open>
  Everything the program does to the outside is an event; a run is the list of its
  events in program order.
\<close>

datatype event =
    Gpio_fsel_outp RPiGPIOPin
  | Gpio_clr RPiGPIOPin
  | Gpio_set RPiGPIOPin
  | Clock_nanosleep_rel timespec
  | Clock_nanosleep_abs timespec
  | Clock_gettime
  | Get_sample channel_singleended
  | Ring_put ring_entry
  | Fprintf_stderr string
  | Perror string
  | Usage
  | Sched_setscheduler int
  | Bcm2835_init
  | Bcm2835_close
  | Spi_begin
  | Spi_end
  | Spi_chipSelect
  | Spi_setClockDivider uint16_t
  | Spi_setDataMode
  | Spi_setBitOrder
  | Spi_setChipSelectPolarity
  | Fopen string
  | Fclose
  | Ring_init
  | Mlockall
  | Stack_prefault
  | Pthread_create_sampling config
  | Pthread_create_logger
  | Signal_sigint
  | Pthread_join_logger
  | Pthread_join_sampling
  | Undefined_conversion
  | Exit int

section \<open>low-energy-meter.c: helpers\<close>

text \<open>
  \<open>die\<close> reads the globals \<open>fout\<close>, \<open>is_spi_open\<close> and \<open>is_bcm_open\<close>; here they are
  arguments.
\<close>

definition die :: "bool \<Rightarrow> bool \<Rightarrow> bool \<Rightarrow> int \<Rightarrow> event list" where
  "die fout_open is_spi_open is_bcm_open status =
     (if fout_open then [Fclose] else []) @
     (if is_spi_open then [Spi_end] else []) @
     (if is_bcm_open then [Bcm2835_close] else []) @
     [Exit status]"

definition next_sampling_time :: "timespec \<Rightarrow> timespec \<Rightarrow> timespec" where
  "next_sampling_time tlast interval =
     (let sec = tv_sec tlast + tv_sec interval;
          nsec = tv_nsec tlast + tv_nsec interval
      in if nsec \<ge> 1000000000
         then \<lparr>tv_sec = sec + 1, tv_nsec = nsec - 1000000000\<rparr>
         else \<lparr>tv_sec = sec, tv_nsec = nsec\<rparr>)"

definition to_nanosec :: "timespec \<Rightarrow> uint64_t" where
  "to_nanosec t = 1000000000 * word_of_int (tv_sec t) + word_of_int (tv_nsec t)"

text \<open>The settle delay \<open>twait\<close>: 0 s and 100000000 ns.\<close>

definition twait :: timespec where
  "twait = \<lparr>tv_sec = 0, tv_nsec = 100000000\<rparr>"

definition sample_error_message :: string where
  "sample_error_message = ''Error while taking sample'' @ [CHR 0x0A]"

section \<open>low-energy-meter.c: the sampling thread\<close>

text \<open>
  One iteration of the \<open>while (true)\<close> loop, after the sample \<open>smp\<close> has been taken and
  \<open>tnow\<close> read. \<open>tclk\<close> is what \<open>clock_gettime\<close> returns if the iteration calls it again
  (after closing the discharge relay).
\<close>

definition sampling_step ::
  "config \<Rightarrow> sampling_locals \<Rightarrow> int16_t \<Rightarrow> timespec \<Rightarrow> timespec \<Rightarrow> sampling_locals \<times> event list"
where
  "sampling_step cfg l smp tnow tclk =
     (if sint smp = - 1 then (l, [Fprintf_stderr sample_error_message])
      else case state l of
        charging \<Rightarrow>
          if uint (threshold_upper cfg) \<le> sint smp
          then (l\<lparr>state := discharging, epoch := epoch l + 1, tsample := tclk\<rparr>,
                [Gpio_clr charge_pin, Clock_nanosleep_rel twait, Gpio_set discharge_pin,
                 Clock_gettime])
          else (let t = next_sampling_time (tsample l) (sampling_interval cfg)
                in (l\<lparr>tsample := t\<rparr>, [Clock_nanosleep_abs t]))
      | discharging \<Rightarrow>
          (let entry = \<lparr>entry_timestamp = to_nanosec tnow, entry_value = smp,
                         entry_epoch = epoch l\<rparr>
           in if sint smp \<le> uint (threshold_lower cfg)
              then (l\<lparr>state := charging\<rparr>,
                    [Ring_put entry, Gpio_clr discharge_pin, Clock_nanosleep_rel twait,
                     Gpio_set charge_pin])
              else (let t = next_sampling_time (tsample l) (sampling_interval cfg)
                    in (l\<lparr>tsample := t\<rparr>, [Ring_put entry, Clock_nanosleep_abs t]))))"

text \<open>
  The loop over the readings the environment supplies, one triple (sample, \<open>tnow\<close>,
  \<open>tclk\<close>) for each iteration. The loop never ends by itself, so a finite list of
  readings gives the events of the first so many iterations and the locals after them.
\<close>

fun sampling_iterations ::
  "config \<Rightarrow> sampling_locals \<Rightarrow> (int16_t \<times> timespec \<times> timespec) list
    \<Rightarrow> sampling_locals \<times> event list"
where
  "sampling_iterations cfg l [] = (l, [])"
| "sampling_iterations cfg l ((smp, tnow, tclk) # ins) =
     (case sampling_step cfg l smp tnow tclk of (l', evs) \<Rightarrow>
        (case sampling_iterations cfg l' ins of (l'', rest) \<Rightarrow>
           (l'', Get_sample adc_channel # Clock_gettime # evs @ rest)))"

definition initial_locals :: "timespec \<Rightarrow> sampling_locals" where
  "initial_locals t0 = \<lparr>state = charging, epoch = 0, tsample = t0\<rparr>"

definition startup_events :: "event list" where
  "startup_events =
     [Gpio_clr discharge_pin, Clock_nanosleep_rel twait, Gpio_set charge_pin, Clock_gettime]"

text \<open>
  The thread: \<open>sched_ok\<close> says whether \<open>sched_setscheduler\<close> succeeds, \<open>t0\<close> is the first
  clock reading, and each iteration gets the SPI reply of its transfer and its two clock
  readings.
\<close>

definition read_adc :: "spi_bus \<times> timespec \<times> timespec \<Rightarrow> int16_t \<times> timespec \<times> timespec" where
  "read_adc = (\<lambda>(spi, tnow, tclk). (get_sample_singleended spi adc_channel, tnow, tclk))"

definition sampling_thread_loop ::
  "config \<Rightarrow> bool \<Rightarrow> timespec \<Rightarrow> (spi_bus \<times> timespec \<times> timespec) list \<Rightarrow> event list"
where
  "sampling_thread_loop cfg sched_ok t0 env =
     Sched_setscheduler (task_priority cfg) #
     (if \<not> sched_ok then Perror ''sched_setscheduler failed'' # die True True True (- 1)
      else startup_events @ snd (sampling_iterations cfg (initial_locals t0) (map read_adc env)))"

definition setup_gpio :: "event list" where
  "setup_gpio =
     [Gpio_fsel_outp charge_pin, Gpio_clr charge_pin,
      Gpio_fsel_outp discharge_pin, Gpio_clr discharge_pin]"

subsection \<open>Reading a run\<close>

text \<open>The level each relay output is commanded to: \<open>True\<close> is high, the relay closed.\<close>

fun gpio_event :: "(RPiGPIOPin \<Rightarrow> bool) \<Rightarrow> event \<Rightarrow> (RPiGPIOPin \<Rightarrow> bool)" where
  "gpio_event lv (Gpio_clr p) = lv(p := False)"
| "gpio_event lv (Gpio_set p) = lv(p := True)"
| "gpio_event lv _ = lv"

definition gpio_after :: "(RPiGPIOPin \<Rightarrow> bool) \<Rightarrow> event list \<Rightarrow> (RPiGPIOPin \<Rightarrow> bool)" where
  "gpio_after lv evs = foldl gpio_event lv evs"

fun other_pin :: "RPiGPIOPin \<Rightarrow> RPiGPIOPin" where
  "other_pin RPI_GPIO_P1_18 = RPI_GPIO_P1_16"
| "other_pin RPI_GPIO_P1_16 = RPI_GPIO_P1_18"

text \<open>The records pushed to the channel, in order.\<close>

fun ring_puts :: "event list \<Rightarrow> ring_entry list" where
  "ring_puts [] = []"
| "ring_puts (Ring_put e # evs) = e # ring_puts evs"
| "ring_puts (_ # evs) = ring_puts evs"

text \<open>The state the loop is in at the start of each iteration.\<close>

fun iteration_locals ::
  "config \<Rightarrow> sampling_locals \<Rightarrow> (int16_t \<times> timespec \<times> timespec) list \<Rightarrow> sampling_locals list"
where
  "iteration_locals cfg l [] = []"
| "iteration_locals cfg l ((smp, tnow, tclk) # ins) =
     l # iteration_locals cfg (fst (sampling_step cfg l smp tnow tclk)) ins"


section \<open>low-energy-meter.c: main\<close>

subsection \<open>The C library conversions\<close>

text \<open>
  \<open>atoi\<close> and \<open>strtod\<close> on plain decimal text: optional white space, an optional sign,
  digits (and for \<open>strtod\<close> an optional fraction); conversion stops at the first
  character that does not fit, and text with no digits gives 0. Exponents, hexadecimal
  forms, infinities and NaN are left out, and so is the overflow of \<open>atoi\<close>. A \<open>double\<close>
  is an exact rational here: rounding is not modelled.
\<close>

definition is_digit :: "char \<Rightarrow> bool" where
  "is_digit c \<longleftrightarrow> 48 \<le> (of_char c :: nat) \<and> (of_char c :: nat) \<le> 57"

definition is_space :: "char \<Rightarrow> bool" where
  "is_space c \<longleftrightarrow> (of_char c :: nat) = 32 \<or> (9 \<le> (of_char c :: nat) \<and> (of_char c :: nat) \<le> 13)"

fun digits_value :: "nat \<Rightarrow> string \<Rightarrow> nat \<times> string" where
  "digits_value acc [] = (acc, [])"
| "digits_value acc (c # cs) =
     (if is_digit c then digits_value (10 * acc + (of_char c - 48)) cs else (acc, c # cs))"

definition atoi :: "string \<Rightarrow> int" where
  "atoi s =
     (case dropWhile is_space s of
        [] \<Rightarrow> 0
      | c # r \<Rightarrow>
          if c = CHR ''-'' then - int (fst (digits_value 0 r))
          else if c = CHR ''+'' then int (fst (digits_value 0 r))
          else int (fst (digits_value 0 (c # r))))"

definition unsigned_decimal :: "string \<Rightarrow> rat" where
  "unsigned_decimal s =
     (case digits_value 0 s of
        (ip, rest) \<Rightarrow>
          (case rest of
             [] \<Rightarrow> of_nat ip
           | c # fs \<Rightarrow>
               if c = CHR ''.''
               then (case digits_value 0 fs of
                       (fp, rest') \<Rightarrow>
                         of_nat ip + of_nat fp / 10 ^ (length fs - length rest'))
               else of_nat ip))"

definition strtod :: "string \<Rightarrow> rat" where
  "strtod s =
     (case dropWhile is_space s of
        [] \<Rightarrow> 0
      | c # r \<Rightarrow>
          if c = CHR ''-'' then - unsigned_decimal r
          else if c = CHR ''+'' then unsigned_decimal r
          else unsigned_decimal (c # r))"

subsection \<open>Startup\<close>

text \<open>
  The conversion of a \<open>double\<close> to \<open>uint64_t\<close> drops the fraction; C leaves it undefined
  when the result does not fit, and so is the division when the frequency is 0 (it gives
  an infinity or a NaN, which do not fit either). \<open>None\<close> is that case.
\<close>

definition frequency_to_interval :: "rat \<Rightarrow> timespec option" where
  "frequency_to_interval frequency =
     (if frequency = 0 then None
      else let x = 1000000000 / frequency + 1 / 2
           in if - 1 < x \<and> x < 2 ^ 64
              then (let ins = (if 0 \<le> x then \<lfloor>x\<rfloor> else 0)
                    in Some \<lparr>tv_sec = ins div 1000000000, tv_nsec = ins mod 1000000000\<rparr>)
              else None)"

definition DEFAULT_TASK_PRIORITY :: int where
  "DEFAULT_TASK_PRIORITY = 49"

definition spi_frequency :: nat where
  "spi_frequency = 500000"

text \<open>The five \<open>..._arg\<close> pointers of \<open>main\<close>; \<open>None\<close> is \<open>NULL\<close>.\<close>

record args =
  sampling_frequency_arg :: "string option"
  logfile_arg :: "string option"
  threshold_upper_arg :: "string option"
  threshold_lower_arg :: "string option"
  task_priority_arg :: "string option"

definition no_args :: args where
  "no_args = \<lparr>sampling_frequency_arg = None, logfile_arg = None, threshold_upper_arg = None,
              threshold_lower_arg = None, task_priority_arg = None\<rparr>"

definition unknown_option_message :: string where
  "unknown_option_message = ''Unknown option'' @ [CHR 0x0A]"

text \<open>
  The \<open>switch\<close> on the option character \<open>c\<close> that \<open>getopt\<close> returned, with \<open>optarg\<close>.
  \<open>getopt\<close> returns \<open>?\<close> for an option that is not in \<open>"f:o:p:l:u:"\<close> and for one whose
  argument is missing. \<open>Inl\<close> is the run that ended in \<open>die\<close>.
\<close>

definition handle_option :: "args \<Rightarrow> char \<Rightarrow> string \<Rightarrow> event list + args" where
  "handle_option a c optarg =
     (if c = CHR ''f'' then Inr (a\<lparr>sampling_frequency_arg := Some optarg\<rparr>)
      else if c = CHR ''o'' then Inr (a\<lparr>logfile_arg := Some optarg\<rparr>)
      else if c = CHR ''l'' then Inr (a\<lparr>threshold_lower_arg := Some optarg\<rparr>)
      else if c = CHR ''u'' then Inr (a\<lparr>threshold_upper_arg := Some optarg\<rparr>)
      else if c = CHR ''p'' then Inr (a\<lparr>task_priority_arg := Some optarg\<rparr>)
      else if c = CHR ''?''
        then Inl ([Fprintf_stderr unknown_option_message, Usage] @ die False False False (- 1))
      else Inr a)"

text \<open>
  The \<open>getopt\<close> loop. Its input is what the successive calls of \<open>getopt\<close> return until
  \<open>-1\<close>: the option character together with \<open>optarg\<close>.
\<close>

fun parse_options :: "args \<Rightarrow> (char \<times> string) list \<Rightarrow> event list + args" where
  "parse_options a [] = Inr a"
| "parse_options a ((c, optarg) # rest) =
     (case handle_option a c optarg of
        Inl died \<Rightarrow> Inl died
      | Inr a' \<Rightarrow> parse_options a' rest)"

text \<open>What the calls that can fail return; \<open>True\<close> is success.\<close>

record main_env =
  bcm2835_init_ok :: bool
  fopen_ok :: bool
  mlockall_ok :: bool
  create_sampling_ok :: bool
  create_logger_ok :: bool
  signal_ok :: bool

text \<open>The assignments to the globals, lines 381 to 390.\<close>

definition configure :: "string \<Rightarrow> string \<Rightarrow> string \<Rightarrow> string option \<Rightarrow> config option" where
  "configure f lo up prio =
     (case frequency_to_interval (strtod f) of
        None \<Rightarrow> None
      | Some interval \<Rightarrow>
          Some \<lparr>task_priority = (case prio of Some p \<Rightarrow> atoi p | None \<Rightarrow> DEFAULT_TASK_PRIORITY),
                sampling_interval = interval,
                threshold_upper = word_of_int (atoi up),
                threshold_lower = word_of_int (atoi lo)\<rparr>)"

text \<open>
  The main thread, from the first statement to its exit. The two worker threads run
  beside it once created; their events are not part of this list.
\<close>

definition main :: "main_env \<Rightarrow> (char \<times> string) list \<Rightarrow> event list" where
  "main env opts =
     (case parse_options no_args opts of
        Inl died \<Rightarrow> died
      | Inr a \<Rightarrow>
         (case (sampling_frequency_arg a, logfile_arg a, threshold_lower_arg a,
                threshold_upper_arg a) of
            (Some f, Some logfile, Some lo, Some up) \<Rightarrow>
              (case configure f lo up (task_priority_arg a) of
                 None \<Rightarrow> [Undefined_conversion]
               | Some cfg \<Rightarrow>
                   Bcm2835_init #
                   (if \<not> bcm2835_init_ok env then die False False False (- 1)
                    else
                      [Spi_begin, Spi_chipSelect,
                       Spi_setClockDivider
                         (word_of_int \<lfloor>250000000 / (of_nat spi_frequency :: rat) + 1 / 2\<rfloor>),
                       Spi_setDataMode, Spi_setBitOrder, Spi_setChipSelectPolarity] @
                      setup_gpio @
                      Fopen logfile #
                      (if \<not> fopen_ok env
                       then Perror ''Could not open log file'' # die False True True (- 1)
                       else
                         Ring_init # Mlockall #
                         (if \<not> mlockall_ok env
                          then Perror ''mlockall failed'' # die True True True (- 1)
                          else
                            Stack_prefault # Pthread_create_sampling cfg #
                            (if \<not> create_sampling_ok env
                             then Perror ''Could not create sampling thread'' #
                                  die True True True (- 1)
                             else
                               Pthread_create_logger #
                               (if \<not> create_logger_ok env
                                then Perror ''Could not create logger thread'' #
                                     die True True True (- 1)
                                else
                                  Signal_sigint #
                                  (if \<not> signal_ok env
                                   then Perror ''Could not set signal handler for SIGINT'' #
                                        die True True True (- 1)
                                   else [Pthread_join_logger, Pthread_join_sampling] @
                                        die True True True 0)))))))
          | _ \<Rightarrow> Usage # die False False False (- 1)))"

text \<open>The events that touch the bus or the relay outputs.\<close>

fun hardware_event :: "event \<Rightarrow> bool" where
  "hardware_event (Gpio_fsel_outp p) = True"
| "hardware_event (Gpio_clr p) = True"
| "hardware_event (Gpio_set p) = True"
| "hardware_event (Get_sample c) = True"
| "hardware_event Bcm2835_init = True"
| "hardware_event Bcm2835_close = True"
| "hardware_event Spi_begin = True"
| "hardware_event Spi_end = True"
| "hardware_event Spi_chipSelect = True"
| "hardware_event (Spi_setClockDivider d) = True"
| "hardware_event Spi_setDataMode = True"
| "hardware_event Spi_setBitOrder = True"
| "hardware_event Spi_setChipSelectPolarity = True"
| "hardware_event _ = False"

section \<open>The channel between the two threads\<close>

text \<open>
  Modelled from the spec: ring.h and ring.c (\<open>struct ring\<close>, \<open>RING_SIZE\<close>, \<open>ring_init\<close>,
  \<open>ring_put\<close>, \<open>ring_get\<close>) are not among the sources. The spec describes the channel
  as a fixed-capacity first-in-first-out buffer of records with one producer and one
  consumer. The buffer is the list of the records it holds, oldest first, and the
  capacity \<open>RING_SIZE\<close> is a parameter.
\<close>

type_synonym ring = "ring_entry list"

definition ring_init :: ring where
  "ring_init = []"

text \<open>
  Modelled from the spec: \<open>ring_put\<close> is missing; the spec says that \<open>put\<close> blocks the
  calling thread while the buffer is full. \<open>None\<close> is the call that cannot proceed.
\<close>

definition ring_put :: "nat \<Rightarrow> ring \<Rightarrow> ring_entry \<Rightarrow> ring option" where
  "ring_put RING_SIZE r e = (if length r < RING_SIZE then Some (r @ [e]) else None)"

text \<open>
  Modelled from the spec: \<open>ring_get\<close> is missing; the spec says that \<open>get\<close> blocks while
  the buffer is empty and delivers the records in the order they were produced.
\<close>

definition ring_get :: "ring \<Rightarrow> (ring_entry \<times> ring) option" where
  "ring_get r = (case r of [] \<Rightarrow> None | e # r' \<Rightarrow> Some (e, r'))"

text \<open>
  The two callers. The sampling thread puts the records of \<open>pending\<close>, in this order
  (line 270); the logger thread gets one record and hands it to \<open>log_sample\<close> (lines 317
  and 318), which \<open>logged\<close> collects. A schedule says which thread runs next; a thread
  whose call cannot proceed stays where it is.
\<close>

record channel_state =
  pending :: "ring_entry list"
  the_ring :: ring
  logged :: "ring_entry list"

datatype thread = Sampling_thread | Logger_thread

fun thread_step :: "nat \<Rightarrow> channel_state \<Rightarrow> thread \<Rightarrow> channel_state" where
  "thread_step RING_SIZE s Sampling_thread =
     (case pending s of
        [] \<Rightarrow> s
      | e # es \<Rightarrow>
          (case ring_put RING_SIZE (the_ring s) e of
             None \<Rightarrow> s
           | Some r' \<Rightarrow> s\<lparr>pending := es, the_ring := r'\<rparr>))"
| "thread_step RING_SIZE s Logger_thread =
     (case ring_get (the_ring s) of
        None \<Rightarrow> s
      | Some (e, r') \<Rightarrow> s\<lparr>the_ring := r', logged := logged s @ [e]\<rparr>)"

definition run_threads :: "nat \<Rightarrow> channel_state \<Rightarrow> thread list \<Rightarrow> channel_state" where
  "run_threads RING_SIZE s schedule = foldl (thread_step RING_SIZE) s schedule"

definition channel_start :: "ring_entry list \<Rightarrow> channel_state" where
  "channel_start records = \<lparr>pending = records, the_ring = ring_init, logged = []\<rparr>"


section \<open>The scenario of the specification\<close>

text \<open>
  10 Hz, lower threshold 100, upper threshold 3000, default priority; an SPI reply that
  decodes to 3100; and numbered records for the channel.
\<close>

definition scenario_config :: config where
  "scenario_config =
     \<lparr>task_priority = 49, sampling_interval = \<lparr>tv_sec = 0, tv_nsec = 100000000\<rparr>,
      threshold_upper = 3000, threshold_lower = 100\<rparr>"

definition reply_3100 :: spi_bus where
  "reply_3100 = (\<lambda>config. (0x01, 0x83, 0x80))"

definition scenario_record :: "nat \<Rightarrow> ring_entry" where
  "scenario_record n = \<lparr>entry_timestamp = of_nat n, entry_value = 2000, entry_epoch = 1\<rparr>"

definition all_calls_succeed :: main_env where
  "all_calls_succeed =
     \<lparr>bcm2835_init_ok = True, fopen_ok = True, mlockall_ok = True,
      create_sampling_ok = True, create_logger_ok = True, signal_ok = True\<rparr>"

section \<open>Properties of runs\<close>

text \<open>The relay that is closed while the loop is in a state.\<close>

fun relay_of :: "State \<Rightarrow> RPiGPIOPin" where
  "relay_of charging = charge_pin"
| "relay_of discharging = discharge_pin"

text \<open>
  Break before make, for a run \<open>tr\<close> that starts with the outputs at \<open>lv\<close>: at no point
  of the run are both relays commanded closed, and a relay is closed only directly after
  the other one has been opened and the settle delay has passed, the relay itself being
  open before that.
\<close>

definition break_before_make :: "(RPiGPIOPin \<Rightarrow> bool) \<Rightarrow> event list \<Rightarrow> bool" where
  "break_before_make lv tr \<longleftrightarrow>
     (\<forall>pre post. tr = pre @ post \<longrightarrow>
        \<not> (gpio_after lv pre charge_pin \<and> gpio_after lv pre discharge_pin) \<and>
        (\<forall>p rest. post = Gpio_set p # rest \<longrightarrow>
           (\<exists>pre'. pre = pre' @ [Gpio_clr (other_pin p), Clock_nanosleep_rel twait] \<and>
                   \<not> gpio_after lv pre' p)))"

text \<open>The outputs agree with the state: its relay is closed and the other one is open.\<close>

definition relays_match :: "State \<Rightarrow> (RPiGPIOPin \<Rightarrow> bool) \<Rightarrow> bool" where
  "relays_match st lv \<longleftrightarrow> lv (relay_of st) \<and> \<not> lv (other_pin (relay_of st))"

section \<open>Facts about the loop\<close>

lemma snd_sampling_iterations_Cons:
  "snd (sampling_iterations cfg l ((smp, tnow, tclk) # ins)) =
     Get_sample adc_channel # Clock_gettime # snd (sampling_step cfg l smp tnow tclk) @
     snd (sampling_iterations cfg (fst (sampling_step cfg l smp tnow tclk)) ins)"
  by (simp split: prod.splits)

lemma fst_sampling_iterations_Cons:
  "fst (sampling_iterations cfg l ((smp, tnow, tclk) # ins)) =
     fst (sampling_iterations cfg (fst (sampling_step cfg l smp tnow tclk)) ins)"
  by (simp split: prod.splits)

lemma ring_puts_append: "ring_puts (a @ b) = ring_puts a @ ring_puts b"
  by (induction a rule: ring_puts.induct) simp_all

lemma ring_puts_step:
  "ring_puts (snd (sampling_step cfg l smp tnow tclk)) =
     (if state l = discharging \<and> sint smp \<noteq> - 1
      then [\<lparr>entry_timestamp = to_nanosec tnow, entry_value = smp, entry_epoch = epoch l\<rparr>]
      else [])"
  by (cases "state l") (simp_all add: sampling_step_def Let_def)

lemma ring_puts_iterations_Cons:
  "ring_puts (snd (sampling_iterations cfg l ((smp, tnow, tclk) # ins))) =
     ring_puts (snd (sampling_step cfg l smp tnow tclk)) @
     ring_puts (snd (sampling_iterations cfg (fst (sampling_step cfg l smp tnow tclk)) ins))"
  by (simp add: snd_sampling_iterations_Cons ring_puts_append del: sampling_iterations.simps)

lemma ring_puts_iterations:
  "ring_puts (snd (sampling_iterations cfg l ins)) =
     map (\<lambda>(l', smp, tnow, tclk).
            \<lparr>entry_timestamp = to_nanosec tnow, entry_value = smp, entry_epoch = epoch l'\<rparr>)
       (filter (\<lambda>(l', smp, tnow, tclk). state l' = discharging \<and> sint smp \<noteq> - 1)
          (zip (iteration_locals cfg l ins) ins))"
proof (induction ins arbitrary: l)
  case Nil
  show ?case by simp
next
  case (Cons x ins)
  obtain smp tnow tclk where x: "x = (smp, tnow, tclk)" by (cases x)
  show ?case
    unfolding x ring_puts_iterations_Cons Cons.IH ring_puts_step
    by simp
qed

lemma epoch_step:
  "epoch (fst (sampling_step cfg l smp tnow tclk)) =
     (if sint smp \<noteq> - 1 \<and> state l = charging \<and> uint (threshold_upper cfg) \<le> sint smp
      then epoch l + 1 else epoch l)"
  by (cases "state l") (simp_all add: sampling_step_def Let_def)

lemma sint_minus_one: "sint (smp :: int16_t) = - 1 \<longleftrightarrow> smp = - 1"
  using word_eq_iff_signed [of smp "- 1", where ?'a = int] by simp

section \<open>The converter returns twelve bits\<close>

lemma bit_224_int: "bit (224 :: int) n \<longleftrightarrow> 5 \<le> n \<and> n < 8"
proof -
  have h: "(224 :: int) = push_bit 5 (mask 3)"
    by (simp add: mask_eq_exp_minus_1 push_bit_eq_mult)
  show ?thesis unfolding h by (auto simp add: bit_push_bit_iff bit_mask_iff)
qed

lemma sample_bits:
  "bit (sample spi c) n \<longleftrightarrow>
     (case spi (startbit OR sebit OR push_bit 3 c) of
        (d0, d1, d2) \<Rightarrow>
          (n = 11 \<and> bit d0 0) \<or> (3 \<le> n \<and> n < 11 \<and> bit d1 (n - 3)) \<or> (n < 3 \<and> bit d2 (n + 5)))"
  unfolding sample_def Let_def
  by (auto simp: bit_simps bit_224_int add.commute split: prod.split dest: bit_imp_le_length)

lemma sample_lt: "sample spi c < 4096"
proof -
  have "sample spi c = sample spi c AND mask 12"
    by (rule bit_word_eqI) (auto simp: sample_bits bit_simps split: prod.splits)
  also have "\<dots> < 2 ^ 12" by (rule and_mask_less') simp
  finally show ?thesis by simp
qed

lemma sample_uint: "uint (sample spi c) < 4096"
  using sample_lt[of spi c] by (simp add: word_less_def)

lemma sample_sint_uint: "sint (sample spi c) = uint (sample spi c)"
proof -
  have nonneg: "0 \<le> uint (sample spi c)" by simp
  have lo: "- 32768 \<le> uint (sample spi c)"
    by (rule order_trans [OF _ nonneg]) simp
  have hi: "uint (sample spi c) < 32768"
    by (rule less_trans [OF sample_uint]) simp
  from lo hi show ?thesis by (simp add: sint_uint signed_take_bit_int_eq_self_iff)
qed

lemma sample_range: "0 \<le> sint (sample spi c) \<and> sint (sample spi c) \<le> 4095"
  using sample_uint[of spi c] by (simp add: sample_sint_uint)

lemma get_sample_is_sample:
  assumes "ch \<noteq> CH_other"
  shows "\<exists>c. c \<le> 7 \<and> get_sample_singleended spi ch = sample spi c"
proof -
  let ?c = "case ch of CH0 \<Rightarrow> 0 | CH1 \<Rightarrow> 1 | CH2 \<Rightarrow> 2 | CH3 \<Rightarrow> 3 | CH4 \<Rightarrow> 4
              | CH5 \<Rightarrow> 5 | CH6 \<Rightarrow> 6 | CH7 \<Rightarrow> 7 | CH_other \<Rightarrow> (0 :: uint8_t)"
  have "?c \<le> 7" by (cases ch) simp_all
  moreover from assms have "get_sample_singleended spi ch = sample spi ?c"
    by (cases ch) (simp_all add: get_sample_singleended_def)
  ultimately show ?thesis by blast
qed

lemma step_no_report:
  "sint smp \<noteq> - 1 \<Longrightarrow> Fprintf_stderr m \<notin> set (snd (sampling_step cfg l smp tnow tclk))"
  by (simp add: sampling_step_def Let_def split: State.split)

lemma iterations_no_report:
  "(\<And>x. x \<in> set ins \<Longrightarrow> sint (fst x) \<noteq> - 1) \<Longrightarrow>
     Fprintf_stderr m \<notin> set (snd (sampling_iterations cfg l ins))"
proof (induction ins arbitrary: l)
  case Nil
  show ?case by simp
next
  case (Cons x ins)
  obtain smp tnow tclk where x: "x = (smp, tnow, tclk)" by (cases x)
  from Cons.prems[of x] x have ok: "sint smp \<noteq> - 1" by simp
  have rest: "Fprintf_stderr m \<notin> set (snd (sampling_iterations cfg l' ins))" for l'
    by (rule Cons.IH) (simp add: Cons.prems)
  show ?case
    using step_no_report[OF ok, of m cfg l tnow tclk] rest[of "fst (sampling_step cfg l smp tnow tclk)"]
    by (simp add: x snd_sampling_iterations_Cons del: sampling_iterations.simps)
qed

lemma read_adc_no_error: "x \<in> set (map read_adc env) \<Longrightarrow> sint (fst x) \<noteq> - 1"
proof -
  have "sint (get_sample_singleended spi adc_channel) \<noteq> - 1" for spi
    using sample_range[of spi 0] by (simp add: get_sample_singleended_def adc_channel_def)
  then show "x \<in> set (map read_adc env) \<Longrightarrow> sint (fst x) \<noteq> - 1"
    by (auto simp: read_adc_def)
qed

text \<open>
  C10. For each of the channels CH0 to CH7, \<open>get_sample_singleended\<close> returns a value
  between 0 and 4095 and never the error value \<open>-1\<close>. Bit 11 of the result is bit 0 of the
  first reply byte, bits 10 to 3 are the second reply byte, and bits 2 to 0 are bits 7 to
  5 of the third. The sampling thread reads channel CH0 only, so it never takes the branch
  that reports a sampling error.
\<close>

theorem adc_sample_in_range:
  assumes "ch \<noteq> CH_other"
  shows "0 \<le> sint (get_sample_singleended spi ch) \<and>
         sint (get_sample_singleended spi ch) \<le> 4095 \<and>
         get_sample_singleended spi ch \<noteq> - 1 \<and>
         (\<exists>c d0 d1 d2. c \<le> 7 \<and> spi (startbit OR sebit OR push_bit 3 c) = (d0, d1, d2) \<and>
            (\<forall>n. bit (get_sample_singleended spi ch) n \<longleftrightarrow>
               (n = 11 \<and> bit d0 0) \<or> (3 \<le> n \<and> n < 11 \<and> bit d1 (n - 3)) \<or>
               (n < 3 \<and> bit d2 (n + 5)))) \<and>
         Fprintf_stderr sample_error_message \<notin> set (sampling_thread_loop cfg sched_ok t0 env)"
proof -
  from assms obtain c where c: "c \<le> 7" "get_sample_singleended spi ch = sample spi c"
    using get_sample_is_sample by blast
  have range: "0 \<le> sint (get_sample_singleended spi ch) \<and> sint (get_sample_singleended spi ch) \<le> 4095"
    using sample_range[of spi c] by (simp add: c)
  then have ne: "get_sample_singleended spi ch \<noteq> - 1" by auto
  obtain d0 d1 d2 where d: "spi (startbit OR sebit OR push_bit 3 c) = (d0, d1, d2)"
    by (cases "spi (startbit OR sebit OR push_bit 3 c)")
  have bits: "\<forall>n. bit (get_sample_singleended spi ch) n \<longleftrightarrow>
               (n = 11 \<and> bit d0 0) \<or> (3 \<le> n \<and> n < 11 \<and> bit d1 (n - 3)) \<or>
               (n < 3 \<and> bit d2 (n + 5))"
    by (simp add: c sample_bits d)
  have loop: "Fprintf_stderr sample_error_message \<notin> set (sampling_thread_loop cfg sched_ok t0 env)"
    using iterations_no_report[of "map read_adc env" sample_error_message cfg "initial_locals t0"]
      read_adc_no_error[of _ env]
    by (auto simp: sampling_thread_loop_def die_def startup_events_def)
  from range ne c(1) d bits loop show ?thesis by blast
qed

theorem adc_sample_in_range_witness:
  "CH0 \<noteq> CH_other \<and> sint (get_sample_singleended (\<lambda>_. (255, 255, 255)) CH0) \<le> 4095 \<and>
   get_sample_singleended (\<lambda>_. (255, 255, 255)) CH0 \<noteq> - 1"
  using adc_sample_in_range [of CH0 "\<lambda>_. (255, 255, 255)"] by simp

section \<open>Break before make\<close>

lemma gpio_after_Nil [simp]: "gpio_after lv [] = lv"
  by (simp add: gpio_after_def)

lemma gpio_after_Cons [simp]: "gpio_after lv (e # es) = gpio_after (gpio_event lv e) es"
  by (simp add: gpio_after_def)

lemma gpio_after_append: "gpio_after lv (a @ b) = gpio_after (gpio_after lv a) b"
  by (simp add: gpio_after_def)

lemma bbm_Nil: "break_before_make lv [] \<longleftrightarrow> \<not> (lv charge_pin \<and> lv discharge_pin)"
  by (simp add: break_before_make_def)

lemma bbm_append:
  assumes a: "break_before_make lv a" and b: "break_before_make (gpio_after lv a) b"
  shows "break_before_make lv (a @ b)"
  unfolding break_before_make_def
proof (intro allI impI)
  fix pre post
  assume split: "a @ b = pre @ post"
  then consider us where "a = pre @ us" "post = us @ b"
    | us where "pre = a @ us" "b = us @ post"
    by (auto simp: append_eq_append_conv2)
  then show "\<not> (gpio_after lv pre charge_pin \<and> gpio_after lv pre discharge_pin) \<and>
        (\<forall>p rest. post = Gpio_set p # rest \<longrightarrow>
           (\<exists>pre'. pre = pre' @ [Gpio_clr (other_pin p), Clock_nanosleep_rel twait] \<and>
                   \<not> gpio_after lv pre' p))"
  proof cases
    case 1
    from a 1(1) have safe: "\<not> (gpio_after lv pre charge_pin \<and> gpio_after lv pre discharge_pin)"
      and sw: "\<And>p rest. us = Gpio_set p # rest \<Longrightarrow>
           (\<exists>pre'. pre = pre' @ [Gpio_clr (other_pin p), Clock_nanosleep_rel twait] \<and>
                   \<not> gpio_after lv pre' p)"
      unfolding break_before_make_def by blast+
    have "\<exists>pre'. pre = pre' @ [Gpio_clr (other_pin p), Clock_nanosleep_rel twait] \<and>
                   \<not> gpio_after lv pre' p" if "post = Gpio_set p # rest" for p rest
    proof (cases us)
      case Nil
      with 1 that have "b = [] @ Gpio_set p # rest" by simp
      with b have "\<exists>pre'. [] = pre' @ [Gpio_clr (other_pin p), Clock_nanosleep_rel twait]"
        unfolding break_before_make_def by blast
      then show ?thesis by simp
    next
      case (Cons u us')
      with 1 that have "us = Gpio_set p # us'" by simp
      then show ?thesis by (rule sw)
    qed
    with safe show ?thesis by blast
  next
    case 2
    from b 2(2) have safe: "\<not> (gpio_after (gpio_after lv a) us charge_pin \<and> gpio_after (gpio_after lv a) us discharge_pin)"
      and sw: "\<And>p rest. post = Gpio_set p # rest \<Longrightarrow>
           (\<exists>pre'. us = pre' @ [Gpio_clr (other_pin p), Clock_nanosleep_rel twait] \<and>
                   \<not> gpio_after (gpio_after lv a) pre' p)"
      unfolding break_before_make_def by blast+
    have "\<exists>pre'. pre = pre' @ [Gpio_clr (other_pin p), Clock_nanosleep_rel twait] \<and>
                   \<not> gpio_after lv pre' p" if "post = Gpio_set p # rest" for p rest
    proof -
      from sw[OF that] obtain pre' where
        "us = pre' @ [Gpio_clr (other_pin p), Clock_nanosleep_rel twait]"
        "\<not> gpio_after (gpio_after lv a) pre' p" by blast
      then have "pre = (a @ pre') @ [Gpio_clr (other_pin p), Clock_nanosleep_rel twait] \<and>
          \<not> gpio_after lv (a @ pre') p"
        by (simp add: 2(1) gpio_after_append)
      then show ?thesis by blast
    qed
    with safe show ?thesis by (simp add: 2(1) gpio_after_append)
  qed
qed

lemma bbm_quiet:
  assumes "\<And>p. e \<noteq> Gpio_set p" "\<And>p. e \<noteq> Gpio_clr p"
  shows "break_before_make lv [e] \<longleftrightarrow> \<not> (lv charge_pin \<and> lv discharge_pin)"
proof -
  have same: "gpio_event lv e = lv" using assms by (cases e) auto
  show ?thesis
    using assms(1) by (auto simp: break_before_make_def append_eq_Cons_conv Cons_eq_append_conv same)
qed

lemma bbm_switch:
  assumes "\<not> lv p" 
  shows "break_before_make lv [Gpio_clr (other_pin p), Clock_nanosleep_rel twait, Gpio_set p]"
  using assms
  by (cases p) (auto simp: break_before_make_def append_eq_Cons_conv Cons_eq_append_conv charge_pin_def discharge_pin_def)

lemma relays_match_safe: "relays_match st lv \<Longrightarrow> \<not> (lv charge_pin \<and> lv discharge_pin)"
  by (cases st) (auto simp: relays_match_def charge_pin_def discharge_pin_def)

lemma other_relay [simp]:
  "other_pin charge_pin = discharge_pin" "other_pin discharge_pin = charge_pin"
  by (simp_all add: charge_pin_def discharge_pin_def)

lemma pins_distinct [simp]: "charge_pin \<noteq> discharge_pin" "discharge_pin \<noteq> charge_pin"
  by (simp_all add: charge_pin_def discharge_pin_def)

lemma gpio_after_quiet:
  assumes "\<And>e p. e \<in> set evs \<Longrightarrow> e \<noteq> Gpio_set p \<and> e \<noteq> Gpio_clr p"
  shows "gpio_after lv evs = lv"
  using assms
proof (induction evs)
  case Nil
  show ?case by simp
next
  case (Cons e evs)
  have "gpio_event lv e = lv" using Cons.prems[of e] by (cases e) auto
  with Cons show ?case by simp
qed

lemma bbm_quiet_list:
  assumes "\<And>e p. e \<in> set evs \<Longrightarrow> e \<noteq> Gpio_set p \<and> e \<noteq> Gpio_clr p"
    and "\<not> (lv charge_pin \<and> lv discharge_pin)"
  shows "break_before_make lv evs"
  using assms(1)
proof (induction evs)
  case Nil
  from assms(2) show ?case by (simp add: bbm_Nil)
next
  case (Cons e evs)
  have q: "\<And>p. e \<noteq> Gpio_set p" "\<And>p. e \<noteq> Gpio_clr p" using Cons.prems[of e] by auto
  then have "gpio_event lv e = lv" by (cases e) auto
  then have same: "gpio_after lv [e] = lv" by simp
  have one: "break_before_make lv [e]" using bbm_quiet[OF q] assms(2) by blast
  have rest: "break_before_make lv evs" by (rule Cons.IH) (simp add: Cons.prems)
  from bbm_append[OF one, of evs] rest same show ?case by simp
qed

lemma bbm_switch_then:
  assumes "\<not> lv p"
    and "\<And>e q. e \<in> set before \<Longrightarrow> e \<noteq> Gpio_set q \<and> e \<noteq> Gpio_clr q"
    and "\<And>e q. e \<in> set after \<Longrightarrow> e \<noteq> Gpio_set q \<and> e \<noteq> Gpio_clr q"
  shows "break_before_make lv
           (before @ [Gpio_clr (other_pin p), Clock_nanosleep_rel twait, Gpio_set p] @ after) \<and>
         gpio_after lv
           (before @ [Gpio_clr (other_pin p), Clock_nanosleep_rel twait, Gpio_set p] @ after) =
         lv(other_pin p := False, p := True)"
proof -
  let ?sw = "[Gpio_clr (other_pin p), Clock_nanosleep_rel twait, Gpio_set p]"
  let ?lv' = "lv(other_pin p := False, p := True)"
  have neq: "other_pin p \<noteq> p" by (cases p) simp_all
  from assms(1) have safe: "\<not> (lv charge_pin \<and> lv discharge_pin)"
    by (cases p) (auto simp: charge_pin_def discharge_pin_def)
  have safe': "\<not> (?lv' charge_pin \<and> ?lv' discharge_pin)"
    by (cases p) (auto simp: charge_pin_def discharge_pin_def)
  have b: "break_before_make lv before" by (rule bbm_quiet_list [OF assms(2) safe])
  have gb: "gpio_after lv before = lv" by (rule gpio_after_quiet [where lv = lv, OF assms(2)])
  have sw: "break_before_make lv ?sw" using bbm_switch [of lv p] assms(1) by simp
  have gsw: "gpio_after lv ?sw = ?lv'" by simp
  have a: "break_before_make ?lv' after" by (rule bbm_quiet_list [OF assms(3) safe'])
  have ga: "gpio_after ?lv' after = ?lv'" by (rule gpio_after_quiet [where lv = ?lv', OF assms(3)])
  have "break_before_make lv (?sw @ after)"
    by (rule bbm_append [OF sw]) (simp only: gsw a)
  then have "break_before_make lv (before @ ?sw @ after)"
    by (intro bbm_append [OF b]) (simp only: gb)
  moreover have "gpio_after lv (before @ ?sw @ after) = ?lv'"
    by (simp only: gpio_after_append gb gsw ga)
  ultimately show ?thesis by blast
qed

lemma bbm_step:
  assumes "relays_match (state l) lv"
  shows "break_before_make lv (snd (sampling_step cfg l smp tnow tclk)) \<and>
         relays_match (state (fst (sampling_step cfg l smp tnow tclk)))
           (gpio_after lv (snd (sampling_step cfg l smp tnow tclk)))"
proof -
  from assms have safe: "\<not> (lv charge_pin \<and> lv discharge_pin)" by (rule relays_match_safe)
  consider (quiet) "state (fst (sampling_step cfg l smp tnow tclk)) = state l"
      "\<And>e p. e \<in> set (snd (sampling_step cfg l smp tnow tclk)) \<Longrightarrow> e \<noteq> Gpio_set p \<and> e \<noteq> Gpio_clr p"
    | (switch) before after where
      "state (fst (sampling_step cfg l smp tnow tclk)) \<noteq> state l"
      "snd (sampling_step cfg l smp tnow tclk) =
         before @ [Gpio_clr (other_pin (relay_of (state (fst (sampling_step cfg l smp tnow tclk))))),
                   Clock_nanosleep_rel twait,
                   Gpio_set (relay_of (state (fst (sampling_step cfg l smp tnow tclk))))] @ after"
      "\<And>e q. e \<in> set before \<Longrightarrow> e \<noteq> Gpio_set q \<and> e \<noteq> Gpio_clr q"
      "\<And>e q. e \<in> set after \<Longrightarrow> e \<noteq> Gpio_set q \<and> e \<noteq> Gpio_clr q"
  proof (cases "sint smp = - 1")
    case True
    then show ?thesis by (intro quiet) (auto simp: sampling_step_def)
  next
    case False
    note ok = this
    show ?thesis
    proof (cases "state l")
      case charging
      show ?thesis
      proof (cases "uint (threshold_upper cfg) \<le> sint smp")
        case True
        show ?thesis
          by (rule switch [of "[]" "[Clock_gettime]"])
            (use ok charging True in \<open>auto simp: sampling_step_def\<close>)
      next
        case False
        then show ?thesis
          by (intro quiet) (use ok charging in \<open>auto simp: sampling_step_def Let_def\<close>)
      qed
    next
      case discharging
      show ?thesis
      proof (cases "sint smp \<le> uint (threshold_lower cfg)")
        case True
        show ?thesis
          by (rule switch [of "[Ring_put \<lparr>entry_timestamp = to_nanosec tnow, entry_value = smp,
                         entry_epoch = epoch l\<rparr>]" "[]"])
            (use ok discharging True in \<open>auto simp: sampling_step_def Let_def\<close>)
      next
        case False
        then show ?thesis
          by (intro quiet) (use ok discharging in \<open>auto simp: sampling_step_def Let_def\<close>)
      qed
    qed
  qed
  then show ?thesis
  proof cases
    case quiet
    from bbm_quiet_list[OF quiet(2) safe] gpio_after_quiet[where lv = lv, OF quiet(2)] assms quiet(1)
    show ?thesis by simp
  next
    case (switch before after)
    let ?p = "relay_of (state (fst (sampling_step cfg l smp tnow tclk)))"
    from switch(1) have other: "other_pin ?p = relay_of (state l)"
      by (cases "state l"; cases "state (fst (sampling_step cfg l smp tnow tclk))") simp_all
    from assms have lv: "\<not> lv ?p"
    proof -
      have "other_pin (other_pin ?p) = ?p" by (cases ?p) simp_all
      with other assms show ?thesis by (simp add: relays_match_def)
    qed
    have neq: "other_pin ?p \<noteq> ?p" by (cases ?p) simp_all
    have "break_before_make lv (snd (sampling_step cfg l smp tnow tclk)) \<and>
          gpio_after lv (snd (sampling_step cfg l smp tnow tclk)) =
          lv(other_pin ?p := False, ?p := True)"
      unfolding switch(2)
      by (rule bbm_switch_then [where lv = lv and p = ?p and before = before and after = after])
        (use lv switch(3,4) in blast)+
    with neq show ?thesis by (simp add: relays_match_def)
  qed
qed

lemma bbm_iterations:
  "relays_match (state l) lv \<Longrightarrow> break_before_make lv (snd (sampling_iterations cfg l ins))"
proof (induction ins arbitrary: l lv)
  case Nil
  then show ?case by (simp add: bbm_Nil relays_match_safe)
next
  case (Cons x ins)
  obtain smp tnow tclk where x: "x = (smp, tnow, tclk)" by (cases x)
  let ?step = "sampling_step cfg l smp tnow tclk"
  let ?head = "[Get_sample adc_channel, Clock_gettime]"
  from Cons.prems have safe: "\<not> (lv charge_pin \<and> lv discharge_pin)" by (rule relays_match_safe)
  have head: "break_before_make lv ?head" by (rule bbm_quiet_list [OF _ safe]) auto
  have ghead: "gpio_after lv ?head = lv" by simp
  from bbm_step [OF Cons.prems, of cfg smp tnow tclk]
  have step: "break_before_make lv (snd ?step)"
    and match: "relays_match (state (fst ?step)) (gpio_after lv (snd ?step))" by blast+
  have rest: "break_before_make (gpio_after lv (snd ?step)) (snd (sampling_iterations cfg (fst ?step) ins))"
    by (rule Cons.IH [OF match])
  have "break_before_make lv (?head @ snd ?step @ snd (sampling_iterations cfg (fst ?step) ins))"
    by (intro bbm_append head) (simp_all only: ghead step rest)
  then show ?case by (simp add: x snd_sampling_iterations_Cons del: sampling_iterations.simps)
qed

lemma gpio_after_setup_gpio: "gpio_after lv0 setup_gpio p = False"
  by (cases p) (simp_all add: setup_gpio_def charge_pin_def discharge_pin_def)

lemma bbm_thread:
  "break_before_make (gpio_after lv0 setup_gpio) (sampling_thread_loop cfg sched_ok t0 env)"
proof -
  let ?lv = "gpio_after lv0 setup_gpio"
  have safe: "\<not> (?lv charge_pin \<and> ?lv discharge_pin)" by (simp add: gpio_after_setup_gpio)
  show ?thesis
  proof (cases sched_ok)
    case False
    then show ?thesis
      unfolding sampling_thread_loop_def
      by (intro bbm_quiet_list [OF _ safe]) (auto simp: die_def)
  next
    case True
    let ?lv' = "?lv(other_pin charge_pin := False, charge_pin := True)"
    let ?start = "[Sched_setscheduler (task_priority cfg)] @
         [Gpio_clr (other_pin charge_pin), Clock_nanosleep_rel twait, Gpio_set charge_pin] @
         [Clock_gettime]"
    have "break_before_make ?lv ?start \<and> gpio_after ?lv ?start = ?lv'"
      by (rule bbm_switch_then) (auto simp: gpio_after_setup_gpio)
    then have start: "break_before_make ?lv ?start" and gstart: "gpio_after ?lv ?start = ?lv'"
      by blast+
    have match: "relays_match (state (initial_locals t0)) ?lv'"
      by (simp add: initial_locals_def relays_match_def)
    have iter: "break_before_make ?lv'
        (snd (sampling_iterations cfg (initial_locals t0) (map read_adc env)))"
      by (rule bbm_iterations [OF match])
    have "break_before_make ?lv
        (?start @ snd (sampling_iterations cfg (initial_locals t0) (map read_adc env)))"
      by (rule bbm_append [OF start]) (simp only: gstart iter)
    with True show ?thesis
      by (simp add: sampling_thread_loop_def startup_events_def)
  qed
qed

lemma step_transition:
  assumes "state (fst (sampling_step cfg l smp tnow tclk)) \<noteq> state l"
  shows "\<exists>before after. snd (sampling_step cfg l smp tnow tclk) =
           before @ [Gpio_clr (relay_of (state l)), Clock_nanosleep_rel twait,
                     Gpio_set (relay_of (state (fst (sampling_step cfg l smp tnow tclk))))] @ after \<and>
           (\<forall>c. Get_sample c \<notin> set (before @ after))"
proof (cases "state l")
  case charging
  with assms have "snd (sampling_step cfg l smp tnow tclk) =
      [] @ [Gpio_clr (relay_of (state l)), Clock_nanosleep_rel twait,
            Gpio_set (relay_of (state (fst (sampling_step cfg l smp tnow tclk))))] @ [Clock_gettime]"
    by (auto simp: sampling_step_def Let_def split: if_splits)
  then show ?thesis by (intro exI conjI) (assumption, simp)
next
  case discharging
  with assms have "snd (sampling_step cfg l smp tnow tclk) =
      [Ring_put \<lparr>entry_timestamp = to_nanosec tnow, entry_value = smp, entry_epoch = epoch l\<rparr>] @
      [Gpio_clr (relay_of (state l)), Clock_nanosleep_rel twait,
       Gpio_set (relay_of (state (fst (sampling_step cfg l smp tnow tclk))))] @ []"
    by (auto simp: sampling_step_def Let_def split: if_splits)
  then show ?thesis by (intro exI conjI) (assumption, simp)
qed

text \<open>
  C1. Take the events of the sampling thread up to any point \<open>pre\<close>, the outputs being as
  \<open>setup_gpio\<close> left them when the thread starts. At that point the charge and the
  discharge relay are not both commanded closed. If the next event closes a relay, the
  two events before it are the opening of the other relay and the settle delay, a relative
  sleep of 0 s and 100000000 ns (100 ms), and the relay that is closed was open before
  them; so nothing, and no sampling, lies
  between the opening and the closing but the delay. The thread starts with this
  sequence, and every iteration that changes the state contains it, opening the relay of
  the old state and closing the relay of the new one, with no sample taken in that
  iteration after the one that caused it.
\<close>

theorem relay_break_before_make:
  assumes "sampling_thread_loop cfg sched_ok t0 env = pre @ post"
  shows "\<not> (gpio_after (gpio_after lv0 setup_gpio) pre charge_pin \<and>
            gpio_after (gpio_after lv0 setup_gpio) pre discharge_pin) \<and>
         (\<forall>p rest. post = Gpio_set p # rest \<longrightarrow>
            (\<exists>pre'. pre = pre' @ [Gpio_clr (other_pin p), Clock_nanosleep_rel \<lparr>tv_sec = 0, tv_nsec = 100000000\<rparr>] \<and>
                    \<not> gpio_after (gpio_after lv0 setup_gpio) pre' p)) \<and>
         (sched_ok \<longrightarrow>
            take 4 (sampling_thread_loop cfg sched_ok t0 env) =
              [Sched_setscheduler (task_priority cfg), Gpio_clr discharge_pin,
               Clock_nanosleep_rel \<lparr>tv_sec = 0, tv_nsec = 100000000\<rparr>,
               Gpio_set charge_pin]) \<and>
         (state (fst (sampling_step cfg l smp tnow tclk)) \<noteq> state l \<longrightarrow>
            (\<exists>before after. snd (sampling_step cfg l smp tnow tclk) =
               before @ [Gpio_clr (relay_of (state l)),
                         Clock_nanosleep_rel \<lparr>tv_sec = 0, tv_nsec = 100000000\<rparr>,
                         Gpio_set (relay_of (state (fst (sampling_step cfg l smp tnow tclk))))] @
               after \<and> (\<forall>c. Get_sample c \<notin> set (before @ after))))"
proof -
  from bbm_thread [of lv0 cfg sched_ok t0 env] assms
  have "\<not> (gpio_after (gpio_after lv0 setup_gpio) pre charge_pin \<and>
            gpio_after (gpio_after lv0 setup_gpio) pre discharge_pin) \<and>
         (\<forall>p rest. post = Gpio_set p # rest \<longrightarrow>
            (\<exists>pre'. pre = pre' @ [Gpio_clr (other_pin p), Clock_nanosleep_rel twait] \<and>
                    \<not> gpio_after (gpio_after lv0 setup_gpio) pre' p))"
    unfolding break_before_make_def by blast
  moreover have "sched_ok \<longrightarrow>
            take 4 (sampling_thread_loop cfg sched_ok t0 env) =
              [Sched_setscheduler (task_priority cfg), Gpio_clr discharge_pin,
               Clock_nanosleep_rel twait, Gpio_set charge_pin]"
    by (simp add: sampling_thread_loop_def startup_events_def)
  moreover note step_transition [of cfg l smp tnow tclk]
  ultimately have "\<not> (gpio_after (gpio_after lv0 setup_gpio) pre charge_pin \<and>
         gpio_after (gpio_after lv0 setup_gpio) pre discharge_pin) \<and>
      (\<forall>p rest. post = Gpio_set p # rest \<longrightarrow>
         (\<exists>pre'. pre = pre' @ [Gpio_clr (other_pin p), Clock_nanosleep_rel twait] \<and>
                 \<not> gpio_after (gpio_after lv0 setup_gpio) pre' p)) \<and>
      (sched_ok \<longrightarrow>
         take 4 (sampling_thread_loop cfg sched_ok t0 env) =
           [Sched_setscheduler (task_priority cfg), Gpio_clr discharge_pin,
            Clock_nanosleep_rel twait, Gpio_set charge_pin]) \<and>
      (state (fst (sampling_step cfg l smp tnow tclk)) \<noteq> state l \<longrightarrow>
         (\<exists>before after. snd (sampling_step cfg l smp tnow tclk) =
            before @ [Gpio_clr (relay_of (state l)), Clock_nanosleep_rel twait,
                      Gpio_set (relay_of (state (fst (sampling_step cfg l smp tnow tclk))))] @
            after \<and> (\<forall>c. Get_sample c \<notin> set (before @ after))))"
    by blast
  then show ?thesis unfolding twait_def .
qed

theorem relay_break_before_make_witness:
  "sampling_thread_loop scenario_config True \<lparr>tv_sec = 5, tv_nsec = 0\<rparr>
     [(reply_3100, \<lparr>tv_sec = 5, tv_nsec = 1000\<rparr>, \<lparr>tv_sec = 5, tv_nsec = 100002000\<rparr>)] =
     [Sched_setscheduler 49, Gpio_clr discharge_pin, Clock_nanosleep_rel \<lparr>tv_sec = 0, tv_nsec = 100000000\<rparr>,
      Gpio_set charge_pin, Clock_gettime, Get_sample CH0, Clock_gettime,
      Gpio_clr charge_pin, Clock_nanosleep_rel \<lparr>tv_sec = 0, tv_nsec = 100000000\<rparr>] @ [Gpio_set discharge_pin, Clock_gettime] \<and>
   \<not> (gpio_after (gpio_after (\<lambda>p. True) setup_gpio)
         [Sched_setscheduler 49, Gpio_clr discharge_pin, Clock_nanosleep_rel \<lparr>tv_sec = 0, tv_nsec = 100000000\<rparr>,
          Gpio_set charge_pin, Clock_gettime, Get_sample CH0, Clock_gettime,
          Gpio_clr charge_pin, Clock_nanosleep_rel \<lparr>tv_sec = 0, tv_nsec = 100000000\<rparr>] charge_pin \<and>
       gpio_after (gpio_after (\<lambda>p. True) setup_gpio)
         [Sched_setscheduler 49, Gpio_clr discharge_pin, Clock_nanosleep_rel \<lparr>tv_sec = 0, tv_nsec = 100000000\<rparr>,
          Gpio_set charge_pin, Clock_gettime, Get_sample CH0, Clock_gettime,
          Gpio_clr charge_pin, Clock_nanosleep_rel \<lparr>tv_sec = 0, tv_nsec = 100000000\<rparr>] discharge_pin) \<and>
   (\<exists>pre'. [Sched_setscheduler 49, Gpio_clr discharge_pin, Clock_nanosleep_rel \<lparr>tv_sec = 0, tv_nsec = 100000000\<rparr>,
            Gpio_set charge_pin, Clock_gettime, Get_sample CH0, Clock_gettime,
            Gpio_clr charge_pin, Clock_nanosleep_rel \<lparr>tv_sec = 0, tv_nsec = 100000000\<rparr>] =
           pre' @ [Gpio_clr (other_pin discharge_pin), Clock_nanosleep_rel \<lparr>tv_sec = 0, tv_nsec = 100000000\<rparr>] \<and>
           \<not> gpio_after (gpio_after (\<lambda>p. True) setup_gpio) pre' discharge_pin) \<and>
   state (fst (sampling_step scenario_config
                 \<lparr>state = charging, epoch = 0, tsample = \<lparr>tv_sec = 5, tv_nsec = 0\<rparr>\<rparr> 3100
                 \<lparr>tv_sec = 5, tv_nsec = 1000\<rparr> \<lparr>tv_sec = 5, tv_nsec = 100002000\<rparr>)) \<noteq> charging"
  using relay_break_before_make
    [of scenario_config True "\<lparr>tv_sec = 5, tv_nsec = 0\<rparr>"
        "[(reply_3100, \<lparr>tv_sec = 5, tv_nsec = 1000\<rparr>, \<lparr>tv_sec = 5, tv_nsec = 100002000\<rparr>)]"
        "[Sched_setscheduler 49, Gpio_clr discharge_pin, Clock_nanosleep_rel \<lparr>tv_sec = 0, tv_nsec = 100000000\<rparr>,
          Gpio_set charge_pin, Clock_gettime, Get_sample CH0, Clock_gettime,
          Gpio_clr charge_pin, Clock_nanosleep_rel \<lparr>tv_sec = 0, tv_nsec = 100000000\<rparr>]"
        "[Gpio_set discharge_pin, Clock_gettime]" "\<lambda>p. True"
        "\<lparr>state = charging, epoch = 0, tsample = \<lparr>tv_sec = 5, tv_nsec = 0\<rparr>\<rparr>" 3100
        "\<lparr>tv_sec = 5, tv_nsec = 1000\<rparr>" "\<lparr>tv_sec = 5, tv_nsec = 100002000\<rparr>"]
  by (simp add: sampling_thread_loop_def startup_events_def read_adc_def
        get_sample_singleended_def sample_def reply_3100_def scenario_config_def
        sampling_step_def initial_locals_def adc_channel_def twait_def)

section \<open>What is recorded\<close>

text \<open>
  C2. The records pushed to the channel by a run of the loop are, in order, one record
  for each iteration that starts in the state \<open>discharging\<close> with a sample other than
  \<open>-1\<close>, holding the sample, its time stamp and the current epoch. In such an iteration
  the push is the first thing done, before the comparison with the lower threshold has
  any effect, so the sample at or below the lower threshold that ends the discharging
  phase is recorded too. An iteration that starts in the state \<open>charging\<close> pushes nothing.
\<close>

theorem discharging_samples_recorded:
  "ring_puts (snd (sampling_iterations cfg l ins)) =
     map (\<lambda>(l', smp, tnow, tclk).
            \<lparr>entry_timestamp = to_nanosec tnow, entry_value = smp, entry_epoch = epoch l'\<rparr>)
       (filter (\<lambda>(l', smp, tnow, tclk). state l' = discharging \<and> sint smp \<noteq> - 1)
          (zip (iteration_locals cfg l ins) ins)) \<and>
   (state l = discharging \<and> sint smp \<noteq> - 1 \<longrightarrow>
      (\<exists>evs. snd (sampling_step cfg l smp tnow tclk) =
          Ring_put \<lparr>entry_timestamp = to_nanosec tnow, entry_value = smp,
                    entry_epoch = epoch l\<rparr> # evs \<and>
          ring_puts evs = [])) \<and>
   (state l = discharging \<and> sint smp \<noteq> - 1 \<and> sint smp \<le> uint (threshold_lower cfg) \<longrightarrow>
      state (fst (sampling_step cfg l smp tnow tclk)) = charging \<and>
      hd (snd (sampling_step cfg l smp tnow tclk)) =
        Ring_put \<lparr>entry_timestamp = to_nanosec tnow, entry_value = smp, entry_epoch = epoch l\<rparr>) \<and>
   (state l = charging \<longrightarrow> ring_puts (snd (sampling_step cfg l smp tnow tclk)) = [])"
proof -
  have first: "\<exists>evs. snd (sampling_step cfg l smp tnow tclk) =
          Ring_put \<lparr>entry_timestamp = to_nanosec tnow, entry_value = smp,
                    entry_epoch = epoch l\<rparr> # evs \<and> ring_puts evs = []"
    if "state l = discharging" "sint smp \<noteq> - 1"
    using that by (simp add: sampling_step_def Let_def)
  have boundary: "state (fst (sampling_step cfg l smp tnow tclk)) = charging \<and>
      hd (snd (sampling_step cfg l smp tnow tclk)) =
        Ring_put \<lparr>entry_timestamp = to_nanosec tnow, entry_value = smp, entry_epoch = epoch l\<rparr>"
    if "state l = discharging" "sint smp \<noteq> - 1" "sint smp \<le> uint (threshold_lower cfg)"
    using that by (simp add: sampling_step_def Let_def)
  have charging: "ring_puts (snd (sampling_step cfg l smp tnow tclk)) = []"
    if "state l = charging"
    using that by (simp add: ring_puts_step)
  from ring_puts_iterations [of cfg l ins] first boundary charging show ?thesis by blast
qed

theorem discharging_samples_recorded_witness:
  "ring_puts (snd (sampling_iterations scenario_config
      \<lparr>state = charging, epoch = 0, tsample = \<lparr>tv_sec = 5, tv_nsec = 0\<rparr>\<rparr>
      [(3100, \<lparr>tv_sec = 5, tv_nsec = 1000\<rparr>, \<lparr>tv_sec = 5, tv_nsec = 100002000\<rparr>),
       (2000, \<lparr>tv_sec = 5, tv_nsec = 100003000\<rparr>, \<lparr>tv_sec = 5, tv_nsec = 100003000\<rparr>),
       (50, \<lparr>tv_sec = 5, tv_nsec = 200003000\<rparr>, \<lparr>tv_sec = 5, tv_nsec = 200003000\<rparr>)])) =
     [\<lparr>entry_timestamp = 5100003000, entry_value = 2000, entry_epoch = 1\<rparr>,
      \<lparr>entry_timestamp = 5200003000, entry_value = 50, entry_epoch = 1\<rparr>] \<and>
   sint (50 :: int16_t) \<noteq> - 1 \<and> sint (50 :: int16_t) \<le> uint (threshold_lower scenario_config) \<and>
   state (fst (sampling_step scenario_config
      \<lparr>state = discharging, epoch = 1, tsample = \<lparr>tv_sec = 7, tv_nsec = 0\<rparr>\<rparr> 50
      \<lparr>tv_sec = 7, tv_nsec = 2000\<rparr> \<lparr>tv_sec = 7, tv_nsec = 100003000\<rparr>)) = charging \<and>
   hd (snd (sampling_step scenario_config
      \<lparr>state = discharging, epoch = 1, tsample = \<lparr>tv_sec = 7, tv_nsec = 0\<rparr>\<rparr> 50
      \<lparr>tv_sec = 7, tv_nsec = 2000\<rparr> \<lparr>tv_sec = 7, tv_nsec = 100003000\<rparr>)) =
     Ring_put \<lparr>entry_timestamp = 7000002000, entry_value = 50, entry_epoch = 1\<rparr>"
  using discharging_samples_recorded
    [where cfg = scenario_config
       and l = "\<lparr>state = charging, epoch = 0, tsample = \<lparr>tv_sec = 5, tv_nsec = 0\<rparr>\<rparr>"
       and ins = "[(3100, \<lparr>tv_sec = 5, tv_nsec = 1000\<rparr>, \<lparr>tv_sec = 5, tv_nsec = 100002000\<rparr>),
       (2000, \<lparr>tv_sec = 5, tv_nsec = 100003000\<rparr>, \<lparr>tv_sec = 5, tv_nsec = 100003000\<rparr>),
       (50, \<lparr>tv_sec = 5, tv_nsec = 200003000\<rparr>, \<lparr>tv_sec = 5, tv_nsec = 200003000\<rparr>)]"]
    discharging_samples_recorded
    [where cfg = scenario_config
       and l = "\<lparr>state = discharging, epoch = 1, tsample = \<lparr>tv_sec = 7, tv_nsec = 0\<rparr>\<rparr>"
       and smp = 50 and tnow = "\<lparr>tv_sec = 7, tv_nsec = 2000\<rparr>"
       and tclk = "\<lparr>tv_sec = 7, tv_nsec = 100003000\<rparr>"]
  by (simp add: scenario_config_def to_nanosec_def sampling_step_def next_sampling_time_def Let_def)

text \<open>
  C3, as stated, fails: with the thresholds 100 and 3000, the sample 50 read while
  discharging switches the state to \<open>charging\<close> and a record for this sample is
  pushed to the channel.
\<close>

theorem boundary_sample_is_recorded:
  "state (fst (sampling_step scenario_config
      \<lparr>state = discharging, epoch = 1, tsample = \<lparr>tv_sec = 7, tv_nsec = 0\<rparr>\<rparr> 50
      \<lparr>tv_sec = 7, tv_nsec = 2000\<rparr> \<lparr>tv_sec = 7, tv_nsec = 100003000\<rparr>)) = charging \<and>
   ring_puts (snd (sampling_step scenario_config
      \<lparr>state = discharging, epoch = 1, tsample = \<lparr>tv_sec = 7, tv_nsec = 0\<rparr>\<rparr> 50
      \<lparr>tv_sec = 7, tv_nsec = 2000\<rparr> \<lparr>tv_sec = 7, tv_nsec = 100003000\<rparr>)) =
     [\<lparr>entry_timestamp = 7000002000, entry_value = 50, entry_epoch = 1\<rparr>] \<and>
   ring_puts (snd (sampling_step scenario_config
      \<lparr>state = discharging, epoch = 1, tsample = \<lparr>tv_sec = 7, tv_nsec = 0\<rparr>\<rparr> 50
      \<lparr>tv_sec = 7, tv_nsec = 2000\<rparr> \<lparr>tv_sec = 7, tv_nsec = 100003000\<rparr>)) \<noteq> []"
  by (simp add: sampling_step_def scenario_config_def to_nanosec_def)

text \<open>
  C3, amended. While discharging, a sample other than \<open>-1\<close> that is less than or equal
  to the lower threshold is first pushed to the channel as a record; then the discharge
  relay is opened, the settle delay is waited, the charge relay is closed, and the state
  is \<open>charging\<close>.
\<close>

theorem lower_threshold_transition:
  assumes "state l = discharging" "sint smp \<noteq> - 1" "sint smp \<le> uint (threshold_lower cfg)"
  shows "sampling_step cfg l smp tnow tclk =
     (l\<lparr>state := charging\<rparr>,
      [Ring_put \<lparr>entry_timestamp = to_nanosec tnow, entry_value = smp, entry_epoch = epoch l\<rparr>,
       Gpio_clr discharge_pin, Clock_nanosleep_rel twait, Gpio_set charge_pin])"
  using assms by (simp add: sampling_step_def Let_def)

theorem lower_threshold_transition_witness:
  "sint (50 :: int16_t) \<noteq> - 1 \<and> sint (50 :: int16_t) \<le> uint (threshold_lower scenario_config) \<and>
   sampling_step scenario_config
      \<lparr>state = discharging, epoch = 1, tsample = \<lparr>tv_sec = 7, tv_nsec = 0\<rparr>\<rparr> 50
      \<lparr>tv_sec = 7, tv_nsec = 2000\<rparr> \<lparr>tv_sec = 7, tv_nsec = 100003000\<rparr> =
     (\<lparr>state = charging, epoch = 1, tsample = \<lparr>tv_sec = 7, tv_nsec = 0\<rparr>\<rparr>,
      [Ring_put \<lparr>entry_timestamp = 7000002000, entry_value = 50, entry_epoch = 1\<rparr>,
       Gpio_clr discharge_pin, Clock_nanosleep_rel twait, Gpio_set charge_pin])"
  using lower_threshold_transition
    [of "\<lparr>state = discharging, epoch = 1, tsample = \<lparr>tv_sec = 7, tv_nsec = 0\<rparr>\<rparr>" 50
        scenario_config "\<lparr>tv_sec = 7, tv_nsec = 2000\<rparr>" "\<lparr>tv_sec = 7, tv_nsec = 100003000\<rparr>"]
  by (simp add: scenario_config_def to_nanosec_def)

section \<open>The epoch counter\<close>

lemma unat_epoch_step:
  assumes "unat (epoch l) + 1 < 2 ^ 64"
  shows "unat (epoch l) \<le> unat (epoch (fst (sampling_step cfg l smp tnow tclk))) \<and>
         unat (epoch (fst (sampling_step cfg l smp tnow tclk))) \<le> unat (epoch l) + 1"
proof -
  from assms have "unat (epoch l + 1) = unat (epoch l) + 1"
    by (simp add: unat_add_lem [THEN iffD1])
  then show ?thesis by (simp add: epoch_step)
qed

lemma epochs_sorted:
  assumes "unat (epoch l) + length ins < 2 ^ 64"
  shows "sorted (map (\<lambda>e. unat (entry_epoch e)) (ring_puts (snd (sampling_iterations cfg l ins)))) \<and>
         (\<forall>e \<in> set (ring_puts (snd (sampling_iterations cfg l ins))).
            unat (epoch l) \<le> unat (entry_epoch e))"
  using assms
proof (induction ins arbitrary: l)
  case Nil
  show ?case by simp
next
  case (Cons x ins)
  obtain smp tnow tclk where x: "x = (smp, tnow, tclk)" by (cases x)
  let ?l' = "fst (sampling_step cfg l smp tnow tclk)"
  from Cons.prems have small: "unat (epoch l) + 1 < 2 ^ 64" by simp
  from unat_epoch_step [OF small, of cfg smp tnow tclk]
  have mono: "unat (epoch l) \<le> unat (epoch ?l')" and succ: "unat (epoch ?l') \<le> unat (epoch l) + 1"
    by blast+
  from succ Cons.prems have "unat (epoch ?l') + length ins < 2 ^ 64" by simp
  from Cons.IH [OF this]
  have sorted: "sorted (map (\<lambda>e. unat (entry_epoch e)) (ring_puts (snd (sampling_iterations cfg ?l' ins))))"
    and above: "\<And>e. e \<in> set (ring_puts (snd (sampling_iterations cfg ?l' ins))) \<Longrightarrow>
            unat (epoch ?l') \<le> unat (entry_epoch e)"
    by blast+
  from above mono
  have above': "\<And>e. e \<in> set (ring_puts (snd (sampling_iterations cfg ?l' ins))) \<Longrightarrow>
            unat (epoch l) \<le> unat (entry_epoch e)"
    using order_trans by blast
  show ?case
    unfolding x ring_puts_iterations_Cons ring_puts_step
    using sorted above' by (auto simp: sorted_append)
qed

lemma epoch_iterations:
  "epoch (fst (sampling_iterations cfg l ins)) =
     epoch l + of_nat (length (filter
       (\<lambda>(l', smp, tnow, tclk). state l' = charging \<and> sint smp \<noteq> - 1 \<and>
          uint (threshold_upper cfg) \<le> sint smp)
       (zip (iteration_locals cfg l ins) ins)))"
proof (induction ins arbitrary: l)
  case Nil
  show ?case by simp
next
  case (Cons x ins)
  obtain smp tnow tclk where x: "x = (smp, tnow, tclk)" by (cases x)
  show ?case
    unfolding x fst_sampling_iterations_Cons Cons.IH epoch_step
    by simp
qed

text \<open>
  C4. The epoch counter starts at 0. An iteration adds exactly one to it when it is in the
  state \<open>charging\<close> and reads a sample other than \<open>-1\<close> that is at least the upper
  threshold, and leaves it as it is in every other case; after a run it is the start value
  plus the number of such iterations. A sample equal to the upper threshold switches to
  \<open>discharging\<close> in the same iteration, and no record is pushed for it. The counter is a
  \<open>uint64_t\<close>: within the first \<open>2 ^ 64\<close> iterations it cannot wrap, and the epochs of
  the records pushed, in the order they are pushed, never decrease.
\<close>

theorem epoch_counts_charge_cycles:
  "epoch (initial_locals tstart) = 0 \<and>
   epoch (fst (sampling_step cfg l smp tnow tclk)) =
     (if sint smp \<noteq> - 1 \<and> state l = charging \<and> uint (threshold_upper cfg) \<le> sint smp
      then epoch l + 1 else epoch l) \<and>
   epoch (fst (sampling_iterations cfg l ins)) =
     epoch l + of_nat (length (filter
       (\<lambda>(l', smp, tnow, tclk). state l' = charging \<and> sint smp \<noteq> - 1 \<and>
          uint (threshold_upper cfg) \<le> sint smp)
       (zip (iteration_locals cfg l ins) ins))) \<and>
   (state l = charging \<and> sint smp \<noteq> - 1 \<and> sint smp = uint (threshold_upper cfg) \<longrightarrow>
      state (fst (sampling_step cfg l smp tnow tclk)) = discharging \<and>
      epoch (fst (sampling_step cfg l smp tnow tclk)) = epoch l + 1 \<and>
      ring_puts (snd (sampling_step cfg l smp tnow tclk)) = []) \<and>
   (length ins < 2 ^ 64 \<longrightarrow>
      sorted (map (\<lambda>e. unat (entry_epoch e))
        (ring_puts (snd (sampling_iterations cfg (initial_locals tstart) ins)))))"
proof -
  have tie: "state (fst (sampling_step cfg l smp tnow tclk)) = discharging \<and>
      epoch (fst (sampling_step cfg l smp tnow tclk)) = epoch l + 1 \<and>
      ring_puts (snd (sampling_step cfg l smp tnow tclk)) = []"
    if "state l = charging" "sint smp \<noteq> - 1" "sint smp = uint (threshold_upper cfg)"
    using that by (simp add: sampling_step_def)
  have sorted: "sorted (map (\<lambda>e. unat (entry_epoch e))
        (ring_puts (snd (sampling_iterations cfg (initial_locals tstart) ins))))"
    if "length ins < 2 ^ 64"
    using epochs_sorted [of "initial_locals tstart" ins cfg] that by (simp add: initial_locals_def)
  have zero: "epoch (initial_locals tstart) = 0" by (simp add: initial_locals_def)
  from zero epoch_step [of cfg l smp tnow tclk] epoch_iterations [of cfg l ins] tie sorted
  show ?thesis by blast
qed

theorem epoch_counts_charge_cycles_witness:
  "sint (3000 :: int16_t) \<noteq> - 1 \<and> sint (3000 :: int16_t) = uint (threshold_upper scenario_config) \<and>
   epoch (fst (sampling_step scenario_config
      \<lparr>state = charging, epoch = 0, tsample = \<lparr>tv_sec = 5, tv_nsec = 0\<rparr>\<rparr> 3000
      \<lparr>tv_sec = 5, tv_nsec = 1000\<rparr> \<lparr>tv_sec = 5, tv_nsec = 100002000\<rparr>)) = 1 \<and>
   length [(3000 :: int16_t, \<lparr>tv_sec = 5, tv_nsec = 1000\<rparr>, \<lparr>tv_sec = 5, tv_nsec = 100002000\<rparr>),
       (2000, \<lparr>tv_sec = 5, tv_nsec = 100003000\<rparr>, \<lparr>tv_sec = 5, tv_nsec = 100003000\<rparr>),
       (50, \<lparr>tv_sec = 5, tv_nsec = 200003000\<rparr>, \<lparr>tv_sec = 5, tv_nsec = 200003000\<rparr>)] < 2 ^ 64 \<and>
   sorted (map (\<lambda>e. unat (entry_epoch e))
     (ring_puts (snd (sampling_iterations scenario_config (initial_locals \<lparr>tv_sec = 5, tv_nsec = 0\<rparr>)
      [(3000, \<lparr>tv_sec = 5, tv_nsec = 1000\<rparr>, \<lparr>tv_sec = 5, tv_nsec = 100002000\<rparr>),
       (2000, \<lparr>tv_sec = 5, tv_nsec = 100003000\<rparr>, \<lparr>tv_sec = 5, tv_nsec = 100003000\<rparr>),
       (50, \<lparr>tv_sec = 5, tv_nsec = 200003000\<rparr>, \<lparr>tv_sec = 5, tv_nsec = 200003000\<rparr>)]))))"
  using epoch_counts_charge_cycles
    [where tstart = "\<lparr>tv_sec = 5, tv_nsec = 0\<rparr>" and cfg = scenario_config
       and l = "\<lparr>state = charging, epoch = 0, tsample = \<lparr>tv_sec = 5, tv_nsec = 0\<rparr>\<rparr>"
       and smp = 3000 and tnow = "\<lparr>tv_sec = 5, tv_nsec = 1000\<rparr>"
       and tclk = "\<lparr>tv_sec = 5, tv_nsec = 100002000\<rparr>"
       and ins = "[(3000, \<lparr>tv_sec = 5, tv_nsec = 1000\<rparr>, \<lparr>tv_sec = 5, tv_nsec = 100002000\<rparr>),
       (2000, \<lparr>tv_sec = 5, tv_nsec = 100003000\<rparr>, \<lparr>tv_sec = 5, tv_nsec = 100003000\<rparr>),
       (50, \<lparr>tv_sec = 5, tv_nsec = 200003000\<rparr>, \<lparr>tv_sec = 5, tv_nsec = 200003000\<rparr>)]"]
  by (simp add: scenario_config_def)

section \<open>Sampling errors\<close>

text \<open>
  C5. An iteration that reads \<open>-1\<close> leaves the state, the epoch and the deadline as they
  are, and does nothing but print the diagnostic; the loop goes on with the next
  iteration from the same locals. No record pushed by a run of the loop has the value
  \<open>-1\<close>.
\<close>

theorem error_sample_ignored:
  "sampling_step cfg l (- 1) tnow tclk = (l, [Fprintf_stderr sample_error_message]) \<and>
   sampling_iterations cfg l ((- 1, tnow, tclk) # ins) =
     (fst (sampling_iterations cfg l ins),
      [Get_sample adc_channel, Clock_gettime, Fprintf_stderr sample_error_message] @
      snd (sampling_iterations cfg l ins)) \<and>
   - 1 \<notin> set (map entry_value (ring_puts (snd (sampling_iterations cfg l ins))))"
proof -
  have step: "sampling_step cfg l (- 1) tnow tclk = (l, [Fprintf_stderr sample_error_message])"
    by (simp add: sampling_step_def)
  have "entry_value e \<noteq> - 1" if "e \<in> set (ring_puts (snd (sampling_iterations cfg l ins)))" for e
    using that unfolding ring_puts_iterations by (auto simp: sint_minus_one)
  then have never: "- 1 \<notin> set (map entry_value (ring_puts (snd (sampling_iterations cfg l ins))))"
    by (metis (no_types, lifting) imageE list.set_map)
  from step never show ?thesis by (simp add: split: prod.splits)
qed

theorem error_sample_ignored_witness:
  "sampling_iterations scenario_config
      \<lparr>state = discharging, epoch = 1, tsample = \<lparr>tv_sec = 7, tv_nsec = 0\<rparr>\<rparr>
      [(- 1, \<lparr>tv_sec = 7, tv_nsec = 2000\<rparr>, \<lparr>tv_sec = 7, tv_nsec = 2000\<rparr>),
       (2000, \<lparr>tv_sec = 7, tv_nsec = 3000\<rparr>, \<lparr>tv_sec = 7, tv_nsec = 3000\<rparr>)] =
     (\<lparr>state = discharging, epoch = 1, tsample = \<lparr>tv_sec = 7, tv_nsec = 100000000\<rparr>\<rparr>,
      [Get_sample CH0, Clock_gettime, Fprintf_stderr sample_error_message,
       Get_sample CH0, Clock_gettime,
       Ring_put \<lparr>entry_timestamp = 7000003000, entry_value = 2000, entry_epoch = 1\<rparr>,
       Clock_nanosleep_abs \<lparr>tv_sec = 7, tv_nsec = 100000000\<rparr>])"
  using error_sample_ignored
    [where cfg = scenario_config
       and l = "\<lparr>state = discharging, epoch = 1, tsample = \<lparr>tv_sec = 7, tv_nsec = 0\<rparr>\<rparr>"
       and tnow = "\<lparr>tv_sec = 7, tv_nsec = 2000\<rparr>" and tclk = "\<lparr>tv_sec = 7, tv_nsec = 2000\<rparr>"
       and ins = "[(2000, \<lparr>tv_sec = 7, tv_nsec = 3000\<rparr>, \<lparr>tv_sec = 7, tv_nsec = 3000\<rparr>)]"]
  by (simp add: sampling_step_def scenario_config_def to_nanosec_def next_sampling_time_def
        adc_channel_def Let_def)




section \<open>The deadline at the transitions\<close>

text \<open>
  C7, as stated, fails. Going from \<open>charging\<close> to \<open>discharging\<close>, the iteration reads
  the clock after the discharge relay is closed and stores the reading in \<open>tsample\<close>.
  Going from \<open>discharging\<close> to \<open>charging\<close> (sample 50, lower threshold 100) it does not
  read the clock, and \<open>tsample\<close> stays at the deadline of the sample before: the next
  charging iteration, 100 ms and more later, sleeps until 7.1 s, a time that has passed
  already.
\<close>

theorem baseline_not_reset_when_charging_resumes:
  "sampling_step scenario_config
      \<lparr>state = charging, epoch = 0, tsample = \<lparr>tv_sec = 5, tv_nsec = 0\<rparr>\<rparr> 3100
      \<lparr>tv_sec = 5, tv_nsec = 1000\<rparr> \<lparr>tv_sec = 5, tv_nsec = 100002000\<rparr> =
     (\<lparr>state = discharging, epoch = 1, tsample = \<lparr>tv_sec = 5, tv_nsec = 100002000\<rparr>\<rparr>,
      [Gpio_clr charge_pin, Clock_nanosleep_rel twait, Gpio_set discharge_pin, Clock_gettime]) \<and>
   tsample (fst (sampling_step scenario_config
      \<lparr>state = discharging, epoch = 1, tsample = \<lparr>tv_sec = 7, tv_nsec = 0\<rparr>\<rparr> 50
      \<lparr>tv_sec = 7, tv_nsec = 2000\<rparr> \<lparr>tv_sec = 7, tv_nsec = 100003000\<rparr>)) =
     \<lparr>tv_sec = 7, tv_nsec = 0\<rparr> \<and>
   Clock_gettime \<notin> set (snd (sampling_step scenario_config
      \<lparr>state = discharging, epoch = 1, tsample = \<lparr>tv_sec = 7, tv_nsec = 0\<rparr>\<rparr> 50
      \<lparr>tv_sec = 7, tv_nsec = 2000\<rparr> \<lparr>tv_sec = 7, tv_nsec = 100003000\<rparr>)) \<and>
   snd (sampling_step scenario_config
      (fst (sampling_step scenario_config
        \<lparr>state = discharging, epoch = 1, tsample = \<lparr>tv_sec = 7, tv_nsec = 0\<rparr>\<rparr> 50
        \<lparr>tv_sec = 7, tv_nsec = 2000\<rparr> \<lparr>tv_sec = 7, tv_nsec = 100003000\<rparr>)) 60
      \<lparr>tv_sec = 7, tv_nsec = 100004000\<rparr> \<lparr>tv_sec = 7, tv_nsec = 100005000\<rparr>) =
     [Clock_nanosleep_abs \<lparr>tv_sec = 7, tv_nsec = 100000000\<rparr>]"
  by (simp add: sampling_step_def scenario_config_def next_sampling_time_def Let_def)

text \<open>
  C7, amended. On the transition from \<open>charging\<close> to \<open>discharging\<close> the deadline baseline
  \<open>tsample\<close> is set to the clock reading taken right after the discharge relay is closed.
  On the transition from \<open>discharging\<close> to \<open>charging\<close> the clock is not read and the
  baseline keeps the last deadline.
\<close>

theorem baseline_reset_when_discharging_starts:
  "(state l = charging \<and> sint smp \<noteq> - 1 \<and> uint (threshold_upper cfg) \<le> sint smp \<longrightarrow>
      tsample (fst (sampling_step cfg l smp tnow tclk)) = tclk \<and>
      snd (sampling_step cfg l smp tnow tclk) =
        [Gpio_clr charge_pin, Clock_nanosleep_rel twait, Gpio_set discharge_pin, Clock_gettime]) \<and>
   (state l = discharging \<and> sint smp \<noteq> - 1 \<and> sint smp \<le> uint (threshold_lower cfg) \<longrightarrow>
      tsample (fst (sampling_step cfg l smp tnow tclk)) = tsample l \<and>
      Clock_gettime \<notin> set (snd (sampling_step cfg l smp tnow tclk)))"
  by (simp add: sampling_step_def Let_def)

theorem baseline_reset_when_discharging_starts_witness:
  "sint (3100 :: int16_t) \<noteq> - 1 \<and> uint (threshold_upper scenario_config) \<le> sint (3100 :: int16_t) \<and>
   tsample (fst (sampling_step scenario_config
      \<lparr>state = charging, epoch = 0, tsample = \<lparr>tv_sec = 5, tv_nsec = 0\<rparr>\<rparr> 3100
      \<lparr>tv_sec = 5, tv_nsec = 1000\<rparr> \<lparr>tv_sec = 5, tv_nsec = 100002000\<rparr>)) =
     \<lparr>tv_sec = 5, tv_nsec = 100002000\<rparr> \<and>
   sint (50 :: int16_t) \<noteq> - 1 \<and> sint (50 :: int16_t) \<le> uint (threshold_lower scenario_config) \<and>
   tsample (fst (sampling_step scenario_config
      \<lparr>state = discharging, epoch = 1, tsample = \<lparr>tv_sec = 7, tv_nsec = 0\<rparr>\<rparr> 50
      \<lparr>tv_sec = 7, tv_nsec = 2000\<rparr> \<lparr>tv_sec = 7, tv_nsec = 100003000\<rparr>)) =
     \<lparr>tv_sec = 7, tv_nsec = 0\<rparr>"
  using baseline_reset_when_discharging_starts
    [where cfg = scenario_config
       and l = "\<lparr>state = charging, epoch = 0, tsample = \<lparr>tv_sec = 5, tv_nsec = 0\<rparr>\<rparr>"
       and smp = 3100 and tnow = "\<lparr>tv_sec = 5, tv_nsec = 1000\<rparr>"
       and tclk = "\<lparr>tv_sec = 5, tv_nsec = 100002000\<rparr>"]
    baseline_reset_when_discharging_starts
    [where cfg = scenario_config
       and l = "\<lparr>state = discharging, epoch = 1, tsample = \<lparr>tv_sec = 7, tv_nsec = 0\<rparr>\<rparr>"
       and smp = 50 and tnow = "\<lparr>tv_sec = 7, tv_nsec = 2000\<rparr>"
       and tclk = "\<lparr>tv_sec = 7, tv_nsec = 100003000\<rparr>"]
  by (simp add: scenario_config_def)

section \<open>Startup checks\<close>

lemma atoi_3000: "atoi ''3000'' = 3000"
  by (simp add: atoi_def is_space_def is_digit_def)

lemma atoi_100: "atoi ''100'' = 100"
  by (simp add: atoi_def is_space_def is_digit_def)

lemma strtod_10: "strtod ''10'' = 10"
  by (simp add: strtod_def unsigned_decimal_def is_space_def is_digit_def)

lemma strtod_negative: "strtod ''-4000000000'' = - 4000000000"
  by (simp add: strtod_def unsigned_decimal_def is_space_def is_digit_def)

lemma interval_10: "frequency_to_interval 10 = Some \<lparr>tv_sec = 0, tv_nsec = 100000000\<rparr>"
proof -
  have "\<lfloor>(200000001 :: rat) / 2\<rfloor> = 100000000" by (simp add: floor_eq_iff)
  then show ?thesis by (simp add: frequency_to_interval_def Let_def)
qed

lemma interval_negative:
  "frequency_to_interval (- 4000000000) = Some \<lparr>tv_sec = 0, tv_nsec = 0\<rparr>"
proof -
  have "\<lfloor>(1 :: rat) / 4\<rfloor> = 0" by (simp add: floor_eq_iff)
  then show ?thesis by (simp add: frequency_to_interval_def Let_def)
qed

lemma spi_divider: "word_of_int \<lfloor>250000000 / (of_nat spi_frequency :: rat) + 1 / 2\<rfloor> = (500 :: uint16_t)"
proof -
  have "\<lfloor>(1001 :: rat) / 2\<rfloor> = 500" by (simp add: floor_eq_iff)
  then show ?thesis by (simp add: spi_frequency_def)
qed

lemma configure_scenario:
  "configure ''10'' ''3000'' ''100'' None =
     Some \<lparr>task_priority = 49, sampling_interval = \<lparr>tv_sec = 0, tv_nsec = 100000000\<rparr>,
           threshold_upper = 100, threshold_lower = 3000\<rparr>"
  by (simp add: configure_def strtod_10 interval_10 atoi_3000 atoi_100 DEFAULT_TASK_PRIORITY_def)

lemma configure_negative_frequency:
  "configure ''-4000000000'' ''100'' ''3000'' None =
     Some \<lparr>task_priority = 49, sampling_interval = \<lparr>tv_sec = 0, tv_nsec = 0\<rparr>,
           threshold_upper = 3000, threshold_lower = 100\<rparr>"
  by (simp add: configure_def strtod_negative interval_negative atoi_3000 atoi_100
        DEFAULT_TASK_PRIORITY_def)

lemma parse_scenario_options:
  "parse_options no_args
     [(CHR ''f'', ''10''), (CHR ''l'', ''3000''), (CHR ''u'', ''100''), (CHR ''o'', ''log.csv'')] =
   Inr \<lparr>sampling_frequency_arg = Some ''10'', logfile_arg = Some ''log.csv'',
        threshold_upper_arg = Some ''100'', threshold_lower_arg = Some ''3000'',
        task_priority_arg = None\<rparr>"
  by (simp add: handle_option_def no_args_def)

lemma parse_negative_frequency:
  "parse_options no_args
     [(CHR ''f'', ''-4000000000''), (CHR ''l'', ''100''), (CHR ''u'', ''3000''),
      (CHR ''o'', ''log.csv'')] =
   Inr \<lparr>sampling_frequency_arg = Some ''-4000000000'', logfile_arg = Some ''log.csv'',
        threshold_upper_arg = Some ''3000'', threshold_lower_arg = Some ''100'',
        task_priority_arg = None\<rparr>"
  by (simp add: handle_option_def no_args_def)

text \<open>
  C8, as stated, fails: with all four arguments given, a lower threshold above the upper
  one (3000 and 100) does not stop the start, and neither does a negative frequency
  (\<open>-4000000000\<close>, for which the interval is 0); in both runs the bus and the relay
  outputs are set up and the threads are created.
\<close>

theorem unchecked_thresholds_and_frequency:
  "main all_calls_succeed
     [(CHR ''f'', ''10''), (CHR ''l'', ''3000''), (CHR ''u'', ''100''), (CHR ''o'', ''log.csv'')] =
     [Bcm2835_init, Spi_begin, Spi_chipSelect, Spi_setClockDivider 500, Spi_setDataMode,
      Spi_setBitOrder, Spi_setChipSelectPolarity, Gpio_fsel_outp charge_pin,
      Gpio_clr charge_pin, Gpio_fsel_outp discharge_pin, Gpio_clr discharge_pin,
      Fopen ''log.csv'', Ring_init, Mlockall, Stack_prefault,
      Pthread_create_sampling
        \<lparr>task_priority = 49, sampling_interval = \<lparr>tv_sec = 0, tv_nsec = 100000000\<rparr>,
         threshold_upper = 100, threshold_lower = 3000\<rparr>,
      Pthread_create_logger, Signal_sigint, Pthread_join_logger, Pthread_join_sampling,
      Fclose, Spi_end, Bcm2835_close, Exit 0] \<and>
   strtod ''-4000000000'' = - 4000000000 \<and>
   main all_calls_succeed
     [(CHR ''f'', ''-4000000000''), (CHR ''l'', ''100''), (CHR ''u'', ''3000''),
      (CHR ''o'', ''log.csv'')] =
     [Bcm2835_init, Spi_begin, Spi_chipSelect, Spi_setClockDivider 500, Spi_setDataMode,
      Spi_setBitOrder, Spi_setChipSelectPolarity, Gpio_fsel_outp charge_pin,
      Gpio_clr charge_pin, Gpio_fsel_outp discharge_pin, Gpio_clr discharge_pin,
      Fopen ''log.csv'', Ring_init, Mlockall, Stack_prefault,
      Pthread_create_sampling
        \<lparr>task_priority = 49, sampling_interval = \<lparr>tv_sec = 0, tv_nsec = 0\<rparr>,
         threshold_upper = 3000, threshold_lower = 100\<rparr>,
      Pthread_create_logger, Signal_sigint, Pthread_join_logger, Pthread_join_sampling,
      Fclose, Spi_end, Bcm2835_close, Exit 0]"
  unfolding main_def parse_scenario_options parse_negative_frequency
  by (simp add: configure_scenario configure_negative_frequency spi_divider setup_gpio_def
        die_def strtod_negative all_calls_succeed_def)

lemma handle_option_died:
  "handle_option a c optarg = Inl evs \<Longrightarrow>
     evs = [Fprintf_stderr unknown_option_message, Usage, Exit (- 1)]"
  by (simp add: handle_option_def die_def split: if_splits)

lemma handle_option_args:
  "handle_option a c optarg = Inr a' \<Longrightarrow>
     (sampling_frequency_arg a' = None \<longleftrightarrow> sampling_frequency_arg a = None \<and> c \<noteq> CHR ''f'') \<and>
     (logfile_arg a' = None \<longleftrightarrow> logfile_arg a = None \<and> c \<noteq> CHR ''o'') \<and>
     (threshold_lower_arg a' = None \<longleftrightarrow> threshold_lower_arg a = None \<and> c \<noteq> CHR ''l'') \<and>
     (threshold_upper_arg a' = None \<longleftrightarrow> threshold_upper_arg a = None \<and> c \<noteq> CHR ''u'')"
  by (auto simp add: handle_option_def split: if_splits)

lemma parse_options_died:
  "parse_options a opts = Inl evs \<Longrightarrow>
     evs = [Fprintf_stderr unknown_option_message, Usage, Exit (- 1)]"
proof (induction opts arbitrary: a)
  case Nil
  then show ?case by simp
next
  case (Cons x rest)
  obtain c optarg where x: "x = (c, optarg)" by (cases x)
  show ?case
  proof (cases "handle_option a c optarg")
    case (Inl died)
    with Cons.prems x have "evs = died" by simp
    with handle_option_died [OF Inl] show ?thesis by simp
  next
    case (Inr a')
    with Cons.prems x have "parse_options a' rest = Inl evs" by simp
    then show ?thesis by (rule Cons.IH)
  qed
qed

lemma parse_options_args:
  "parse_options a opts = Inr b \<Longrightarrow>
     (sampling_frequency_arg b = None \<longleftrightarrow>
        sampling_frequency_arg a = None \<and> CHR ''f'' \<notin> fst ` set opts) \<and>
     (logfile_arg b = None \<longleftrightarrow> logfile_arg a = None \<and> CHR ''o'' \<notin> fst ` set opts) \<and>
     (threshold_lower_arg b = None \<longleftrightarrow>
        threshold_lower_arg a = None \<and> CHR ''l'' \<notin> fst ` set opts) \<and>
     (threshold_upper_arg b = None \<longleftrightarrow>
        threshold_upper_arg a = None \<and> CHR ''u'' \<notin> fst ` set opts)"
proof (induction opts arbitrary: a)
  case Nil
  then show ?case by simp
next
  case (Cons x rest)
  obtain c optarg where x: "x = (c, optarg)" by (cases x)
  show ?case
  proof (cases "handle_option a c optarg")
    case (Inl died)
    with Cons.prems x show ?thesis by simp
  next
    case (Inr a')
    with Cons.prems x have "parse_options a' rest = Inr b" by simp
    have mem: "k \<notin> fst ` set (x # rest) \<longleftrightarrow> c \<noteq> k \<and> k \<notin> fst ` set rest" for k
      by (auto simp: x)
    note ih = Cons.IH [OF \<open>parse_options a' rest = Inr b\<close>]
    note ho = handle_option_args [OF Inr]
    show ?thesis unfolding mem by (simp only: ih ho conj_assoc)
  qed
qed

text \<open>
  C8, amended. If one of the options \<open>-f\<close>, \<open>-o\<close>, \<open>-l\<close>, \<open>-u\<close> is missing, the process prints
  the usage (after the message for an unknown option, if \<open>getopt\<close> reported one) and exits
  with status \<open>-1\<close>, with no access to the bus or the relay outputs before.
\<close>

theorem missing_argument_stops_startup:
  assumes "CHR ''f'' \<notin> fst ` set opts \<or> CHR ''o'' \<notin> fst ` set opts \<or>
           CHR ''l'' \<notin> fst ` set opts \<or> CHR ''u'' \<notin> fst ` set opts"
  shows "(main env opts = [Usage, Exit (- 1)] \<or>
          main env opts = [Fprintf_stderr unknown_option_message, Usage, Exit (- 1)]) \<and>
         last (main env opts) = Exit (- 1) \<and>
         \<not> list_ex hardware_event (main env opts)"
proof -
  have "main env opts = [Usage, Exit (- 1)] \<or>
        main env opts = [Fprintf_stderr unknown_option_message, Usage, Exit (- 1)]"
  proof (cases "parse_options no_args opts")
    case (Inl evs)
    with parse_options_died [OF Inl] show ?thesis by (simp add: main_def)
  next
    case (Inr a)
    from parse_options_args [OF Inr] assms
    have "sampling_frequency_arg a = None \<or> logfile_arg a = None \<or>
          threshold_lower_arg a = None \<or> threshold_upper_arg a = None"
      by (auto simp: no_args_def)
    then have "main env opts = [Usage, Exit (- 1)]"
      by (auto simp: main_def Inr die_def split: option.splits)
    then show ?thesis ..
  qed
  then show ?thesis by auto
qed

theorem missing_argument_stops_startup_witness:
  "CHR ''o'' \<notin> fst ` set [(CHR ''f'', ''10''), (CHR ''l'', ''100''), (CHR ''u'', ''3000'')] \<and>
   main all_calls_succeed
     [(CHR ''f'', ''10''), (CHR ''l'', ''100''), (CHR ''u'', ''3000'')] = [Usage, Exit (- 1)]"
  using missing_argument_stops_startup
    [where opts = "[(CHR ''f'', ''10''), (CHR ''l'', ''100''), (CHR ''u'', ''3000'')]"
       and env = "all_calls_succeed"]
  by (simp add: main_def no_args_def die_def handle_option_def all_calls_succeed_def)

section \<open>The channel delivers in order\<close>

lemma thread_step_keeps_records:
  "logged (thread_step n s t) @ the_ring (thread_step n s t) @ pending (thread_step n s t) =
   logged s @ the_ring s @ pending s"
  by (cases t) (auto simp: ring_put_def ring_get_def split: list.splits option.splits)

lemma thread_step_bounded:
  "length (the_ring s) \<le> n \<Longrightarrow> length (the_ring (thread_step n s t)) \<le> n"
  by (cases t) (auto simp: ring_put_def ring_get_def split: list.splits option.splits)

lemma run_threads_snoc:
  "run_threads n s (schedule @ [t]) = thread_step n (run_threads n s schedule) t"
  by (simp add: run_threads_def)

lemma run_threads_keeps_records:
  "logged (run_threads n s schedule) @ the_ring (run_threads n s schedule) @
   pending (run_threads n s schedule) = logged s @ the_ring s @ pending s"
  by (induction schedule rule: rev_induct)
    (simp_all add: run_threads_snoc thread_step_keeps_records, simp add: run_threads_def)

lemma run_threads_bounded:
  "length (the_ring s) \<le> n \<Longrightarrow> length (the_ring (run_threads n s schedule)) \<le> n"
  by (induction schedule rule: rev_induct)
    (simp_all add: run_threads_snoc thread_step_bounded, simp add: run_threads_def)

lemma alternate_delivers:
  assumes "0 < n" "the_ring s = []"
  shows "run_threads n s (concat (replicate (length (pending s)) [Sampling_thread, Logger_thread])) =
         s\<lparr>pending := [], logged := logged s @ pending s\<rparr>"
  using assms(2)
proof (induction "pending s" arbitrary: s)
  case Nil
  then show ?case by (simp add: run_threads_def)
next
  case (Cons e es)
  let ?s' = "s\<lparr>pending := es, logged := logged s @ [e]\<rparr>"
  from Cons(2) [symmetric] Cons.prems assms(1)
  have two: "thread_step n (thread_step n s Sampling_thread) Logger_thread = ?s'"
    by (simp add: ring_put_def ring_get_def)
  have "run_threads n ?s' (concat (replicate (length (pending ?s')) [Sampling_thread, Logger_thread])) =
        ?s'\<lparr>pending := [], logged := logged ?s' @ pending ?s'\<rparr>"
    by (rule Cons(1)) (simp_all add: Cons.prems)
  with two Cons(2) [symmetric] show ?case by (simp add: run_threads_def)
qed

text \<open>
  C9. Whatever the schedule of the two threads, the records logged so far, followed by
  the records in the buffer, followed by those the sampling thread has still to put, are
  the records produced, in their order: none is lost, none is doubled, none overtakes
  another. The buffer never holds more than \<open>RING_SIZE\<close> records; \<open>ring_put\<close> cannot
  proceed exactly when it is full and \<open>ring_get\<close> exactly when it is empty, and the thread
  then stays where it is. With room for at least one record, taking turns delivers all
  the records to the logger.
\<close>

theorem channel_delivers_in_order:
  "logged (run_threads RING_SIZE (channel_start records) schedule) @
   the_ring (run_threads RING_SIZE (channel_start records) schedule) @
   pending (run_threads RING_SIZE (channel_start records) schedule) = records \<and>
   length (the_ring (run_threads RING_SIZE (channel_start records) schedule)) \<le> RING_SIZE \<and>
   (ring_put RING_SIZE r e = None \<longleftrightarrow> RING_SIZE \<le> length r) \<and>
   (ring_get r = None \<longleftrightarrow> r = []) \<and>
   (RING_SIZE \<le> length (the_ring s) \<longrightarrow> thread_step RING_SIZE s Sampling_thread = s) \<and>
   (the_ring s = [] \<longrightarrow> thread_step RING_SIZE s Logger_thread = s) \<and>
   (0 < RING_SIZE \<longrightarrow>
      run_threads RING_SIZE (channel_start records)
        (concat (replicate (length records) [Sampling_thread, Logger_thread])) =
      \<lparr>pending = [], the_ring = [], logged = records\<rparr>)"
proof -
  have keep: "logged (run_threads RING_SIZE (channel_start records) schedule) @
   the_ring (run_threads RING_SIZE (channel_start records) schedule) @
   pending (run_threads RING_SIZE (channel_start records) schedule) = records"
    by (simp add: run_threads_keeps_records) (simp add: channel_start_def ring_init_def)
  have bound: "length (the_ring (run_threads RING_SIZE (channel_start records) schedule)) \<le> RING_SIZE"
    by (rule run_threads_bounded) (simp add: channel_start_def ring_init_def)
  have full: "ring_put RING_SIZE r e = None \<longleftrightarrow> RING_SIZE \<le> length r"
    by (auto simp: ring_put_def)
  have empty: "ring_get r = None \<longleftrightarrow> r = []"
    by (simp add: ring_get_def split: list.splits)
  have blocked_put: "thread_step RING_SIZE s Sampling_thread = s" if "RING_SIZE \<le> length (the_ring s)"
    using that by (simp add: ring_put_def split: list.splits)
  have blocked_get: "thread_step RING_SIZE s Logger_thread = s" if "the_ring s = []"
    using that by (simp add: ring_get_def)
  have all: "run_threads RING_SIZE (channel_start records)
        (concat (replicate (length records) [Sampling_thread, Logger_thread])) =
      \<lparr>pending = [], the_ring = [], logged = records\<rparr>" if "0 < RING_SIZE"
    using alternate_delivers [OF that, of "channel_start records"]
    by (simp add: channel_start_def ring_init_def)
  from keep bound full empty blocked_put blocked_get all show ?thesis by blast
qed

theorem channel_delivers_in_order_witness:
  "run_threads 4 (channel_start (map scenario_record [1, 2, 3, 4, 5]))
     [Sampling_thread, Sampling_thread, Sampling_thread, Sampling_thread] =
     \<lparr>pending = [scenario_record 5], the_ring = map scenario_record [1, 2, 3, 4], logged = []\<rparr> \<and>
   (4 :: nat) \<le> length (the_ring
     \<lparr>pending = [scenario_record 5], the_ring = map scenario_record [1, 2, 3, 4], logged = []\<rparr>) \<and>
   thread_step 4
     \<lparr>pending = [scenario_record 5], the_ring = map scenario_record [1, 2, 3, 4], logged = []\<rparr>
     Sampling_thread =
     \<lparr>pending = [scenario_record 5], the_ring = map scenario_record [1, 2, 3, 4], logged = []\<rparr> \<and>
   run_threads 4
     \<lparr>pending = [scenario_record 5], the_ring = map scenario_record [1, 2, 3, 4], logged = []\<rparr>
     [Logger_thread, Sampling_thread] =
     \<lparr>pending = [], the_ring = map scenario_record [2, 3, 4, 5], logged = [scenario_record 1]\<rparr> \<and>
   (0 :: nat) < 4 \<and>
   run_threads 4 (channel_start (map scenario_record [1, 2, 3, 4, 5]))
     [Sampling_thread, Logger_thread, Sampling_thread, Logger_thread, Sampling_thread,
      Logger_thread, Sampling_thread, Logger_thread, Sampling_thread, Logger_thread] =
     \<lparr>pending = [], the_ring = [], logged = map scenario_record [1, 2, 3, 4, 5]\<rparr>"
  using channel_delivers_in_order
    [where RING_SIZE = 4 and records = "map scenario_record [1, 2, 3, 4, 5]"
       and s = "\<lparr>pending = [scenario_record 5], the_ring = map scenario_record [1, 2, 3, 4],
                 logged = []\<rparr>"]
  by (simp add: run_threads_def channel_start_def ring_init_def ring_put_def ring_get_def)

end
